theory Spec2Isabelle
  imports Complex_Main "HOL-Library.Word"
begin

section \<open>The desktop-shell client of weston/clients\<close>

text \<open>
  A shallow embedding of the four files of the client:
  \<^item> \<^verbatim>\<open>desktop-shell-panel.c\<close>: the panel, its launchers and the parser of a launcher's
    command line;
  \<^item> \<^verbatim>\<open>desktop-shell-background.c\<close>: the background surface;
  \<^item> \<^verbatim>\<open>desktop-shell-unlock.c\<close>: the unlock dialog and the unlocker;
  \<^item> \<^verbatim>\<open>desktop-shell-simple.c\<close>: the desktop, its outputs and the handlers of the
    compositor's events.

  A C string is the list of the characters before its terminating NUL. A \<^verbatim>\<open>char *\<close> that
  may be \<^verbatim>\<open>NULL\<close> is a \<open>string option\<close>. The requests a handler sends to the compositor
  or to the toolkit are returned as a list, in the order of the calls. What the operating
  system answers (the result of \<^verbatim>\<open>fork\<close>, of \<^verbatim>\<open>malloc\<close>) is a parameter of the function that
  asks.
\<close>

subsection \<open>Command lines of launchers (\<^verbatim>\<open>panel_add_launcher\<close>)\<close>

text \<open>\<^verbatim>\<open>isspace\<close> of the C locale: space, and the five controls from \<^verbatim>\<open>\t\<close> to \<^verbatim>\<open>\r\<close>.\<close>

definition isspace :: "char \<Rightarrow> bool" where
  "isspace c \<longleftrightarrow>
     c = CHR '' '' \<or> c = CHR 0x09 \<or> c = CHR 0x0A \<or> c = CHR 0x0B \<or> c = CHR 0x0C \<or> c = CHR 0x0D"

text \<open>
  \<^verbatim>\<open>strncmp(a, b, n) == 0\<close>: the first \<open>n\<close> characters agree, or both strings end
  together before. The end of the list is the terminating NUL.
\<close>

fun strncmp_zero :: "string \<Rightarrow> string \<Rightarrow> nat \<Rightarrow> bool" where
  "strncmp_zero a b 0 = True"
| "strncmp_zero [] [] (Suc n) = True"
| "strncmp_zero [] (y # ys) (Suc n) = False"
| "strncmp_zero (x # xs) [] (Suc n) = False"
| "strncmp_zero (x # xs) (y # ys) (Suc n) = (x = y \<and> strncmp_zero xs ys n)"

text \<open>
  The scan of one token,
  \<^verbatim>\<open>for (p = start, eq = NULL; *p && !isspace(*p); p++) if (*p == '=') eq = p;\<close>
  run on the characters from \<open>p\<close> on, with \<open>n = p - start\<close>. It returns \<open>p - start\<close> and
  \<open>eq - start\<close> at the end of the loop (\<open>None\<close> when \<open>eq\<close> is still \<^verbatim>\<open>NULL\<close>): the offset of
  the last \<^verbatim>\<open>=\<close> of the token.
\<close>

fun scan_token :: "string \<Rightarrow> nat \<Rightarrow> nat option \<Rightarrow> nat \<times> nat option" where
  "scan_token [] n eq = (n, eq)"
| "scan_token (c # cs) n eq =
     (if isspace c then (n, eq)
      else scan_token cs (Suc n) (if c = CHR ''='' then Some n else eq))"

text \<open>
  The search of the environment,
  \<^verbatim>\<open>for (k = 0; k < i; k++) if (strncmp(ps[k], start, eq - start) == 0) { ps[k] = start; break; }\<close>
  \<open>Some\<close> is the array after the replacement; \<open>None\<close> says the loop ended with \<open>k == i\<close>.
  When the comparison runs, \<open>start\<close> is followed by the rest of the line, but only the
  \<open>eq - start\<close> characters before the \<^verbatim>\<open>=\<close> are read; the entry stored is the token, which
  the loop below ends with a NUL.
\<close>

fun env_replace :: "string list \<Rightarrow> string \<Rightarrow> nat \<Rightarrow> string list option" where
  "env_replace [] tok n = None"
| "env_replace (e # es) tok n =
     (if strncmp_zero e tok n then Some (tok # es)
      else map_option ((#) e) (env_replace es tok n))"

definition env_set :: "string list \<Rightarrow> string \<Rightarrow> nat \<Rightarrow> string list" where
  "env_set envp tok n = (case env_replace envp tok n of Some envp' \<Rightarrow> envp' | None \<Rightarrow> envp @ [tok])"

text \<open>
  The body of the \<^verbatim>\<open>while\<close> loop for one token: an override of the environment when the
  token has a \<^verbatim>\<open>=\<close> and no argument was stored yet (\<open>j == 0\<close>; \<open>j\<close> counts the entries of
  \<open>argv\<close>, as \<open>i\<close> counts those of \<open>envp\<close>), an argument otherwise.
\<close>

definition add_token :: "string \<Rightarrow> nat option \<Rightarrow> string list \<times> string list \<Rightarrow> string list \<times> string list" where
  "add_token tok eq ea =
     (case ea of (envp, argv) \<Rightarrow>
        (case eq of
           Some n \<Rightarrow> if length argv = 0 then (env_set envp tok n, argv) else (envp, argv @ [tok])
         | None \<Rightarrow> (envp, argv @ [tok])))"

text \<open>
  Where the next token starts:
  \<^verbatim>\<open>while (*p && isspace(*p)) *p++ = '\0'; start = p;\<close>
\<close>

definition token_len :: "string \<Rightarrow> nat" where
  "token_len start = fst (scan_token start 0 None)"

definition token_eq :: "string \<Rightarrow> nat option" where
  "token_eq start = snd (scan_token start 0 None)"

definition next_start :: "string \<Rightarrow> string" where
  "next_start start = dropWhile isspace (drop (token_len start) start)"

lemma scan_token_fst: "fst (scan_token s n eq) = n + length (takeWhile (\<lambda>c. \<not> isspace c) s)"
  by (induction s arbitrary: n eq) auto

lemma token_len_takeWhile: "token_len s = length (takeWhile (\<lambda>c. \<not> isspace c) s)"
  by (simp add: token_len_def scan_token_fst)

lemma take_token_len: "take (token_len s) s = takeWhile (\<lambda>c. \<not> isspace c) s"
  by (induction s) (auto simp: token_len_takeWhile)

lemma drop_token_len: "drop (token_len s) s = dropWhile (\<lambda>c. \<not> isspace c) s"
  by (induction s) (auto simp: token_len_takeWhile)

lemma next_start_shorter: "start \<noteq> [] \<Longrightarrow> length (next_start start) < length start"
proof (cases start)
  case Nil
  then show "start \<noteq> [] \<Longrightarrow> ?thesis" by simp
next
  case (Cons c cs)
  show ?thesis
  proof (cases "isspace c")
    case True
    have "length (dropWhile isspace cs) \<le> length cs"
      by (rule length_dropWhile_le)
    with True Cons show ?thesis
      by (simp add: next_start_def drop_token_len)
  next
    case False
    have "length (dropWhile isspace (dropWhile (\<lambda>c. \<not> isspace c) cs)) \<le> length (dropWhile (\<lambda>c. \<not> isspace c) cs)"
      by (rule length_dropWhile_le)
    moreover have "length (dropWhile (\<lambda>c. \<not> isspace c) cs) \<le> length cs"
      by (rule length_dropWhile_le)
    ultimately show ?thesis using False Cons
      by (simp add: next_start_def drop_token_len)
  qed
qed

text \<open>The \<^verbatim>\<open>while (*start)\<close> loop, from \<open>start\<close> with the two arrays filled so far.\<close>

function parse_loop :: "string \<Rightarrow> string list \<times> string list \<Rightarrow> string list \<times> string list" where
  "parse_loop start ea =
     (if start = [] then ea
      else parse_loop (next_start start)
             (add_token (take (token_len start) start) (token_eq start) ea))"
  by pat_completeness auto
termination
  by (relation "measure (\<lambda>(start, ea). length start)") (auto simp: next_start_shorter)

declare parse_loop.simps [simp del]

record panel_launcher =
  icon :: string
  focused :: bool
  pressed :: bool
  path :: string
  envp :: "string option list"
  argv :: "string option list"

text \<open>
  The two arrays \<^verbatim>\<open>panel_add_launcher\<close> builds from \<^verbatim>\<open>environ\<close> and the command line:
  \<open>envp\<close> starts as a copy of \<^verbatim>\<open>environ\<close>, and both arrays end with a \<^verbatim>\<open>NULL\<close> entry.
\<close>

definition parse_path :: "string list \<Rightarrow> string \<Rightarrow> string option list \<times> string option list" where
  "parse_path environ p =
     (case parse_loop p (environ, []) of
        (e, a) \<Rightarrow> (map Some e @ [None], map Some a @ [None]))"

record panel =
  launcher_list :: "panel_launcher list"
  clock :: bool
  panel_painted :: bool

text \<open>
  \<^verbatim>\<open>panel_add_launcher\<close>: the launcher is zeroed, takes the icon (kept here by its file
  name), a copy of the command line and the two arrays, and goes to the end of the panel's
  list (\<^verbatim>\<open>wl_list_insert(panel->launcher_list.prev, ...)\<close>). The loop cuts the copy in place,
  writing a NUL over the white space after each token, so the string \<open>launcher->path\<close> is
  left as the characters before the first white space of the line.
\<close>

definition panel_add_launcher :: "string list \<Rightarrow> panel \<Rightarrow> string \<Rightarrow> string \<Rightarrow> panel" where
  "panel_add_launcher environ pn icon_file p =
     pn\<lparr>launcher_list := launcher_list pn @
        [\<lparr>icon = icon_file, focused = False, pressed = False,
          path = take (token_len p) p,
          envp = fst (parse_path environ p), argv = snd (parse_path environ p)\<rparr>]\<rparr>"

text \<open>
  \<^verbatim>\<open>panel_launcher_activate\<close>, as each process sees it: \<open>pid\<close> is what \<^verbatim>\<open>fork\<close> returned.
  The parent returns; the child calls \<^verbatim>\<open>execve(argv[0], argv, envp)\<close>. Reading \<^verbatim>\<open>argv[0]\<close>
  of an array with no entry at all would read through a null pointer.
\<close>

datatype activation =
    Fork_failed
  | Parent_returns
  | Child_fault
  | Child_execve "string option" "string option list" "string option list"

definition panel_launcher_activate :: "panel_launcher \<Rightarrow> int \<Rightarrow> activation" where
  "panel_launcher_activate l pid =
     (if pid < 0 then Fork_failed
      else if pid \<noteq> 0 then Parent_returns
      else (case argv l of
              [] \<Rightarrow> Child_fault
            | a0 # _ \<Rightarrow> Child_execve a0 (argv l) (envp l)))"

subsection \<open>Pointer buttons and requests\<close>

datatype wl_pointer_button_state =
    WL_POINTER_BUTTON_STATE_RELEASED
  | WL_POINTER_BUTTON_STATE_PRESSED

text \<open>The button codes of \<^verbatim>\<open>linux/input.h\<close>.\<close>

definition BTN_LEFT :: "32 word" where "BTN_LEFT = 0x110"
definition BTN_RIGHT :: "32 word" where "BTN_RIGHT = 0x111"
definition BTN_MIDDLE :: "32 word" where "BTN_MIDDLE = 0x112"

text \<open>What a handler asks of the compositor or of the toolkit.\<close>

datatype request =
    Desktop_shell_unlock
  | Desktop_shell_desktop_ready
  | Desktop_shell_set_lock_surface
  | Display_defer
  | Widget_schedule_redraw
  | Window_schedule_resize int int
  | Widget_schedule_resize int int
  | Window_show_menu

text \<open>
  \<^verbatim>\<open>panel_launcher_button_handler\<close>: a redraw is scheduled, and the launcher is activated
  when the state is \<^verbatim>\<open>WL_POINTER_BUTTON_STATE_RELEASED\<close>. The result is the requests and
  the activation, if one was made.
\<close>

definition panel_launcher_button_handler ::
  "panel_launcher \<Rightarrow> 32 word \<Rightarrow> wl_pointer_button_state \<Rightarrow> int
     \<Rightarrow> request list \<times> activation option" where
  "panel_launcher_button_handler l button state pid =
     ([Widget_schedule_redraw],
      if state = WL_POINTER_BUTTON_STATE_RELEASED then Some (panel_launcher_activate l pid)
      else None)"

definition panel_launcher_enter_handler :: "panel_launcher \<Rightarrow> panel_launcher" where
  "panel_launcher_enter_handler l = l\<lparr>focused := True\<rparr>"

definition panel_launcher_leave_handler :: "panel_launcher \<Rightarrow> panel_launcher" where
  "panel_launcher_leave_handler l = l\<lparr>focused := False\<rparr>"

subsection \<open>The panel\<close>

text \<open>
  \<^verbatim>\<open>panel_create\<close>: \<^verbatim>\<open>NULL\<close> when \<^verbatim>\<open>malloc\<close> fails; else a zeroed panel, with a clock when
  the timer could be created (\<^verbatim>\<open>panel_add_clock\<close>).
\<close>

definition panel_create :: "bool \<Rightarrow> bool \<Rightarrow> panel option" where
  "panel_create malloc_ok timerfd_ok =
     (if \<not> malloc_ok then None
      else Some \<lparr>launcher_list = [], clock = timerfd_ok, panel_painted = False\<rparr>)"

text \<open>
  The handlers of a panel, each as the change it makes to the \<^verbatim>\<open>struct panel\<close>. The
  redraw handler ends with a call of \<^verbatim>\<open>check_desktop_ready\<close>, made by the desktop's
  dispatch below. The resize, configure and button handlers only talk to the toolkit.
\<close>

definition panel_redraw_handler :: "panel \<Rightarrow> panel" where
  "panel_redraw_handler pn = pn\<lparr>panel_painted := True\<rparr>"

definition panel_resize_handler :: "panel \<Rightarrow> int \<Rightarrow> int \<Rightarrow> panel" where
  "panel_resize_handler pn width height = pn"

definition panel_configure :: "panel \<Rightarrow> int \<Rightarrow> int \<Rightarrow> panel \<times> request list" where
  "panel_configure pn width height = (pn, [Window_schedule_resize width 32])"

definition panel_button_handler ::
  "panel \<Rightarrow> 32 word \<Rightarrow> wl_pointer_button_state \<Rightarrow> panel \<times> request list" where
  "panel_button_handler pn button state =
     (pn, if button = BTN_RIGHT \<and> state = WL_POINTER_BUTTON_STATE_PRESSED
          then [Window_show_menu] else [])"

text \<open>
  \<^verbatim>\<open>panel_read_config\<close>, from the return of \<^verbatim>\<open>parse_config_file\<close> on: \<open>pn\<close> is the panel as
  the parser left it and \<open>ret\<close> what the parser returned. \<^verbatim>\<open>DATADIR\<close> and \<^verbatim>\<open>BINDIR\<close> are
  set by the build.
\<close>

definition panel_read_config ::
  "string list \<Rightarrow> string \<Rightarrow> string \<Rightarrow> panel \<Rightarrow> int \<Rightarrow> panel \<times> int" where
  "panel_read_config environ DATADIR BINDIR pn ret =
     (if ret < 0
      then panel_add_launcher environ pn
             (DATADIR @ ''/weston/terminal.png'') (BINDIR @ ''/weston-terminal'')
      else pn,
      ret)"

datatype panel_op =
    Panel_redraw
  | Panel_resize int int
  | Panel_configure int int
  | Panel_button "32 word" wl_pointer_button_state
  | Panel_add_launcher "string list" string string
  | Panel_read_config "string list" string string int
  | Launcher_enter nat
  | Launcher_leave nat

text \<open>An enter or leave event goes to the \<open>k\<close>-th launcher of the list, when there is one.\<close>

definition on_launcher :: "nat \<Rightarrow> (panel_launcher \<Rightarrow> panel_launcher) \<Rightarrow> panel \<Rightarrow> panel" where
  "on_launcher k f pn =
     (if k < length (launcher_list pn)
      then pn\<lparr>launcher_list := (launcher_list pn)[k := f (launcher_list pn ! k)]\<rparr>
      else pn)"

fun panel_apply :: "panel_op \<Rightarrow> panel \<Rightarrow> panel" where
  "panel_apply Panel_redraw pn = panel_redraw_handler pn"
| "panel_apply (Panel_resize w h) pn = panel_resize_handler pn w h"
| "panel_apply (Panel_configure w h) pn = fst (panel_configure pn w h)"
| "panel_apply (Panel_button b s) pn = fst (panel_button_handler pn b s)"
| "panel_apply (Panel_add_launcher environ i p) pn = panel_add_launcher environ pn i p"
| "panel_apply (Panel_read_config environ dd bd ret) pn = fst (panel_read_config environ dd bd pn ret)"
| "panel_apply (Launcher_enter k) pn = on_launcher k panel_launcher_enter_handler pn"
| "panel_apply (Launcher_leave k) pn = on_launcher k panel_launcher_leave_handler pn"

subsection \<open>The background\<close>

datatype background_type = BACKGROUND_SCALE | BACKGROUND_SCALE_CROP | BACKGROUND_TILE

record background =
  image :: "string option"
  color :: "32 word"
  background_painted :: bool
  bg_type :: background_type

text \<open>
  \<^verbatim>\<open>background_create\<close> zeroes the structure: no image, colour 0, not painted, and type 0,
  which is \<^verbatim>\<open>BACKGROUND_SCALE\<close>.
\<close>

definition background_create :: background where
  "background_create =
     \<lparr>image = None, color = 0, background_painted = False, bg_type = BACKGROUND_SCALE\<rparr>"

text \<open>
  \<^verbatim>\<open>background_draw\<close>, as the change it makes to the \<^verbatim>\<open>struct background\<close>; the drawing goes
  to the surface, and the call of \<^verbatim>\<open>check_desktop_ready\<close> that ends it is made by the
  desktop's dispatch.
\<close>

definition background_draw :: "background \<Rightarrow> background" where
  "background_draw bg = bg\<lparr>background_painted := True\<rparr>"

text \<open>
  The source \<^verbatim>\<open>background_draw\<close> chooses for the paint, as the calls it makes between
  reading the allocation and \<^verbatim>\<open>cairo_paint\<close>. The arithmetic is that of \<^verbatim>\<open>double\<close>; its
  operations are taken as they come, as the fields of a record: the conversion of an
  integer, the quotient, the product, the difference, the comparison \<^verbatim>\<open><\<close> and the
  constant \<^verbatim>\<open>0.5\<close>.
\<close>

record 'd double_ops =
  of_integer :: "int \<Rightarrow> 'd"
  quotient :: "'d \<Rightarrow> 'd \<Rightarrow> 'd"
  product :: "'d \<Rightarrow> 'd \<Rightarrow> 'd"
  difference :: "'d \<Rightarrow> 'd \<Rightarrow> 'd"
  less_than :: "'d \<Rightarrow> 'd \<Rightarrow> bool"
  half :: 'd

datatype 'd cairo_call =
    Cairo_pattern_create_for_surface
  | Cairo_matrix_init_scale 'd 'd
  | Cairo_matrix_init_translate 'd 'd
  | Cairo_matrix_scale 'd 'd
  | Cairo_pattern_set_matrix
  | Cairo_pattern_set_extend_repeat
  | Cairo_set_source
  | Set_hex_color "32 word"

text \<open>
  \<open>load_cairo_surface\<close> gives the width and the height of the image of a file, or \<open>None\<close>
  where the C function returns \<^verbatim>\<open>NULL\<close>; it is called only when the background has an image.
  The test \<^verbatim>\<open>background->type != -1\<close> holds of each of the three types. The matrix of
  \<^verbatim>\<open>BACKGROUND_SCALE_CROP\<close> is initialised as a translation and then scaled.
\<close>

definition background_draw_source ::
  "'d double_ops \<Rightarrow> (string \<Rightarrow> (int \<times> int) option) \<Rightarrow> background \<Rightarrow> int \<Rightarrow> int
     \<Rightarrow> 'd cairo_call list" where
  "background_draw_source ops load_cairo_surface bg allocation_width allocation_height =
     (case (case image bg of None \<Rightarrow> None | Some file \<Rightarrow> load_cairo_surface file) of
        None \<Rightarrow> [Set_hex_color (color bg)]
      | Some (w, h) \<Rightarrow>
          (let im_w = of_integer ops w;
               im_h = of_integer ops h;
               sx = quotient ops im_w (of_integer ops allocation_width);
               sy = quotient ops im_h (of_integer ops allocation_height)
           in Cairo_pattern_create_for_surface #
              (case bg_type bg of
                 BACKGROUND_SCALE \<Rightarrow>
                   [Cairo_matrix_init_scale sx sy, Cairo_pattern_set_matrix]
               | BACKGROUND_SCALE_CROP \<Rightarrow>
                   (let s = (if less_than ops sx sy then sx else sy);
                        tx = product ops
                               (difference ops im_w (product ops s (of_integer ops allocation_width)))
                               (half ops);
                        ty = product ops
                               (difference ops im_h (product ops s (of_integer ops allocation_height)))
                               (half ops)
                    in [Cairo_matrix_init_translate tx ty, Cairo_matrix_scale s s,
                        Cairo_pattern_set_matrix])
               | BACKGROUND_TILE \<Rightarrow> [Cairo_pattern_set_extend_repeat])
              @ [Cairo_set_source]))"

definition background_configure :: "background \<Rightarrow> int \<Rightarrow> int \<Rightarrow> background \<times> request list" where
  "background_configure bg width height = (bg, [Widget_schedule_resize width height])"

text \<open>
  \<^verbatim>\<open>background_section_done\<close>, with the values of the three keys of the section: a type
  that is none of the three names leaves the type as it is. It is applied here to the
  background itself. (\<^verbatim>\<open>background_read_config\<close> hands the parser the address of its own
  parameter; a handler called with that address writes beside the structure. None of the
  three writes is a write of the painted flag either way.)
\<close>

definition background_section_done ::
  "background \<Rightarrow> string \<Rightarrow> string option \<Rightarrow> 32 word \<Rightarrow> background" where
  "background_section_done bg key_background_type key_background_image key_background_color =
     (let bg1 =
        (if key_background_type = ''scale'' then bg\<lparr>bg_type := BACKGROUND_SCALE\<rparr>
         else if key_background_type = ''scale-crop'' then bg\<lparr>bg_type := BACKGROUND_SCALE_CROP\<rparr>
         else if key_background_type = ''tile'' then bg\<lparr>bg_type := BACKGROUND_TILE\<rparr>
         else bg)
      in bg1\<lparr>image := key_background_image, color := key_background_color\<rparr>)"

datatype background_op =
    Background_draw
  | Background_configure int int
  | Background_section_done string "string option" "32 word"

fun background_apply :: "background_op \<Rightarrow> background \<Rightarrow> background" where
  "background_apply Background_draw bg = background_draw bg"
| "background_apply (Background_configure w h) bg = fst (background_configure bg w h)"
| "background_apply (Background_section_done t i c) bg = background_section_done bg t i c"

subsection \<open>The unlock dialog and the unlocker\<close>


record unlock_dialog =
  button_focused :: bool
  closing :: bool
  dialog_unlocker :: "nat option"

record unlocker =
  dialog :: "unlock_dialog option"



text \<open>
  \<^verbatim>\<open>unlock_dialog_create\<close>: \<^verbatim>\<open>NULL\<close> when \<^verbatim>\<open>malloc\<close> fails; else a zeroed dialog whose window
  is given to the compositor as the lock surface. It assigns the window, the widget, the
  button and the handlers; the pointer to the unlocker stays \<^verbatim>\<open>NULL\<close>.
\<close>

definition unlock_dialog_create :: "bool \<Rightarrow> unlock_dialog option \<times> request list" where
  "unlock_dialog_create malloc_ok =
     (if \<not> malloc_ok then (None, [])
      else (Some \<lparr>button_focused = False, closing = False, dialog_unlocker = None\<rparr>,
            [Desktop_shell_set_lock_surface, Window_schedule_resize 260 230]))"

text \<open>\<^verbatim>\<open>unlock_dialog_finish\<close>, the deferred task.\<close>

definition unlock_dialog_finish :: "unlocker \<Rightarrow> unlocker \<times> request list" where
  "unlock_dialog_finish u = (u\<lparr>dialog := None\<rparr>, [Desktop_shell_unlock])"

text \<open>
  \<^verbatim>\<open>unlocker_create\<close> allocates an unlocker, sets its task and its desktop, and ends with
  \<^verbatim>\<open>return 0;\<close>: the caller gets \<^verbatim>\<open>NULL\<close>.
\<close>

definition unlocker_create :: "unlocker option" where
  "unlocker_create = None"

definition unlocker_lock :: "unlocker \<Rightarrow> bool \<Rightarrow> unlocker \<times> request list" where
  "unlocker_lock u malloc_ok =
     (case dialog u of
        None \<Rightarrow> (case unlock_dialog_create malloc_ok of (dlg, rs) \<Rightarrow> (u\<lparr>dialog := dlg\<rparr>, rs))
      | Some _ \<Rightarrow> (u, []))"

subsection \<open>The desktop\<close>

record desktop_output =
  output_panel :: "panel option"
  output_background :: "background option"

record desktop =
  interface_version :: "32 word"
  unlocker :: "unlocker option"
  outputs :: "desktop_output list"
  desktop_painted :: bool

text \<open>\<^verbatim>\<open>is_desktop_painted\<close>: the loop over the outputs, with its two early returns.\<close>

fun is_desktop_painted :: "desktop_output list \<Rightarrow> bool" where
  "is_desktop_painted [] = True"
| "is_desktop_painted (out # rest) =
     (if (case output_panel out of Some pn \<Rightarrow> \<not> panel_painted pn | None \<Rightarrow> False) then False
      else if (case output_background out of Some bg \<Rightarrow> \<not> background_painted bg | None \<Rightarrow> False)
      then False
      else is_desktop_painted rest)"

definition check_desktop_ready :: "desktop \<Rightarrow> desktop \<times> request list" where
  "check_desktop_ready d =
     (if \<not> desktop_painted d \<and> is_desktop_painted (outputs d)
      then (d\<lparr>desktop_painted := True\<rparr>,
            if 2 \<le> interface_version d then [Desktop_shell_desktop_ready] else [])
      else (d, []))"

text \<open>
  \<^verbatim>\<open>desktop_shell_prepare_lock_surface\<close>; \<open>key_locking\<close> is the static variable of the file,
  initialised to 1.
\<close>

definition desktop_shell_prepare_lock_surface :: "bool \<Rightarrow> bool \<Rightarrow> desktop \<Rightarrow> desktop \<times> request list" where
  "desktop_shell_prepare_lock_surface key_locking malloc_ok d =
     (if \<not> key_locking \<or> unlocker d = None then (d, [Desktop_shell_unlock])
      else (case unlocker d of
              None \<Rightarrow> (d, [Desktop_shell_unlock])
            | Some u \<Rightarrow>
                (case unlocker_lock u malloc_ok of (u', rs) \<Rightarrow> (d\<lparr>unlocker := Some u'\<rparr>, rs))))"

text \<open>
  The desktop of \<^verbatim>\<open>main\<close> before the display is created: zeroed, with the unlocker that
  \<^verbatim>\<open>unlocker_create\<close> returned and an empty list of outputs.
\<close>

definition main_desktop :: desktop where
  "main_desktop =
     \<lparr>interface_version = 0, unlocker = unlocker_create, outputs = [], desktop_painted = False\<rparr>"

text \<open>
  The events the desktop receives while it runs. \<^verbatim>\<open>global_handler\<close> binds the shell with
  the smaller of the announced version and 2, and puts a new output at the head of the
  list, with the panel \<^verbatim>\<open>panel_create\<close> returned and a new background. An event for a
  panel or a background names the output by its place in the list; a redraw ends with
  \<^verbatim>\<open>check_desktop_ready\<close>. No statement of the file assigns \<open>key_locking\<close>, so a request for the
  lock surface finds it at 1. The flags of \<^verbatim>\<open>Global_wl_output\<close> say whether the \<^verbatim>\<open>malloc\<close> of
  \<^verbatim>\<open>panel_create\<close> and the timer of its clock succeeded.
\<close>

datatype event =
    Global_desktop_shell "32 word"
  | Global_wl_output bool bool
  | On_panel nat panel_op
  | On_background nat background_op
  | Prepare_lock_surface bool

definition global_handler_shell :: "32 word \<Rightarrow> desktop \<Rightarrow> desktop" where
  "global_handler_shell version d = d\<lparr>interface_version := (if version < 2 then version else 2)\<rparr>"

definition global_handler_output :: "bool \<Rightarrow> bool \<Rightarrow> desktop \<Rightarrow> desktop" where
  "global_handler_output malloc_ok timerfd_ok d =
     d\<lparr>outputs := \<lparr>output_panel = panel_create malloc_ok timerfd_ok,
                    output_background = Some background_create\<rparr> # outputs d\<rparr>"

definition set_output :: "nat \<Rightarrow> desktop_output \<Rightarrow> desktop \<Rightarrow> desktop" where
  "set_output i out d = d\<lparr>outputs := (outputs d)[i := out]\<rparr>"

fun dispatch :: "event \<Rightarrow> desktop \<Rightarrow> desktop \<times> request list" where
  "dispatch (Global_desktop_shell version) d = (global_handler_shell version d, [])"
| "dispatch (Global_wl_output malloc_ok timerfd_ok) d = (global_handler_output malloc_ok timerfd_ok d, [])"
| "dispatch (On_panel i op) d =
     (if i < length (outputs d) then
        (case output_panel (outputs d ! i) of
           None \<Rightarrow> (d, [])
         | Some pn \<Rightarrow>
             (let d' = set_output i ((outputs d ! i)\<lparr>output_panel := Some (panel_apply op pn)\<rparr>) d
              in if op = Panel_redraw then check_desktop_ready d' else (d', [])))
      else (d, []))"
| "dispatch (On_background i op) d =
     (if i < length (outputs d) then
        (case output_background (outputs d ! i) of
           None \<Rightarrow> (d, [])
         | Some bg \<Rightarrow>
             (let d' = set_output i ((outputs d ! i)\<lparr>output_background := Some (background_apply op bg)\<rparr>) d
              in if op = Background_draw then check_desktop_ready d' else (d', [])))
      else (d, []))"
| "dispatch (Prepare_lock_surface malloc_ok) d = desktop_shell_prepare_lock_surface True malloc_ok d"

fun run :: "event list \<Rightarrow> desktop \<Rightarrow> desktop \<times> request list" where
  "run [] d = (d, [])"
| "run (ev # evs) d =
     (case dispatch ev d of
        (d', rs) \<Rightarrow> (case run evs d' of (d'', rs') \<Rightarrow> (d'', rs @ rs')))"

subsection \<open>Sequences of operations, and the tokens of a command line\<close>

fun panel_ops :: "panel_op list \<Rightarrow> panel \<Rightarrow> panel" where
  "panel_ops [] pn = pn"
| "panel_ops (op # ops) pn = panel_ops ops (panel_apply op pn)"

fun background_ops :: "background_op list \<Rightarrow> background \<Rightarrow> background" where
  "background_ops [] bg = bg"
| "background_ops (op # ops) bg = background_ops ops (background_apply op bg)"

text \<open>
  The tokens the \<^verbatim>\<open>while (*start)\<close> loop of \<^verbatim>\<open>panel_add_launcher\<close> goes through, in order:
  the same recursion as \<open>parse_loop\<close>, keeping the tokens only. A line that starts with
  white space has the empty string as its first token.
\<close>

function tokens :: "string \<Rightarrow> string list" where
  "tokens start =
     (if start = [] then [] else take (token_len start) start # tokens (next_start start))"
  by pat_completeness auto
termination
  by (relation "measure length") (auto simp: next_start_shorter)

declare tokens.simps [simp del]

definition has_eq :: "string \<Rightarrow> bool" where
  "has_eq tok \<longleftrightarrow> CHR ''='' \<in> set tok"

text \<open>
  The tokens taken as overrides of the environment are those before the first token
  without \<^verbatim>\<open>=\<close>; the others are the arguments.
\<close>

definition env_overrides :: "string \<Rightarrow> string list" where
  "env_overrides p = takeWhile has_eq (tokens p)"

definition arguments :: "string \<Rightarrow> string list" where
  "arguments p = dropWhile has_eq (tokens p)"

text \<open>The words of a list written on one line, a space between two of them.\<close>

fun join_space :: "string list \<Rightarrow> string" where
  "join_space [] = []"
| "join_space [t] = t"
| "join_space (t # u # ts) = t @ CHR '' '' # join_space (u # ts)"

definition reconstruct :: "string \<Rightarrow> string" where
  "reconstruct p = join_space (env_overrides p @ arguments p)"

text \<open>No token after the first one without \<^verbatim>\<open>=\<close> has a \<^verbatim>\<open>=\<close>.\<close>

definition plain_after_first :: "string \<Rightarrow> bool" where
  "plain_after_first p \<longleftrightarrow> list_all (\<lambda>t. \<not> has_eq t) (tl (arguments p))"

text \<open>
  The words of a line in the usual sense: the maximal runs of characters that are not white
  space, in order. White space at the start of the line gives no word.
\<close>

function words_of :: "string \<Rightarrow> string list" where
  "words_of s =
     (if dropWhile isspace s = [] then []
      else takeWhile (\<lambda>c. \<not> isspace c) (dropWhile isspace s)
           # words_of (dropWhile (\<lambda>c. \<not> isspace c) (dropWhile isspace s)))"
  by pat_completeness auto
termination
proof (relation "measure length")
  show "wf (measure length)" by simp
next
  fix s :: string
  assume ne: "dropWhile isspace s \<noteq> []"
  then obtain c cs where cs: "dropWhile isspace s = c # cs" by (cases "dropWhile isspace s") auto
  then have "\<not> isspace c" using hd_dropWhile [of isspace s] by simp
  then have "length (dropWhile (\<lambda>c. \<not> isspace c) (c # cs)) \<le> length cs"
    by (simp add: length_dropWhile_le)
  moreover have "length (c # cs) \<le> length s"
    using length_dropWhile_le [of isspace s] cs by simp
  ultimately show "(dropWhile (\<lambda>c. \<not> isspace c) (dropWhile isspace s), s) \<in> measure length"
    using cs by simp
qed

declare words_of.simps [simp del]

text \<open>A token holds no white space.\<close>

definition ws_free :: "string \<Rightarrow> bool" where
  "ws_free t \<longleftrightarrow> (\<forall>c\<in>set t. \<not> isspace c)"

text \<open>The body of the loop, for a token that stands alone.\<close>

definition tok_step :: "string list \<times> string list \<Rightarrow> string \<Rightarrow> string list \<times> string list" where
  "tok_step ea tok = add_token tok (token_eq tok) ea"

text \<open>What the loop does to \<open>envp\<close> for a token taken as an override.\<close>

definition env_merge :: "string list \<Rightarrow> string \<Rightarrow> string list" where
  "env_merge e tok = (case token_eq tok of Some n \<Rightarrow> env_set e tok n | None \<Rightarrow> e)"

subsection \<open>Notions for the readiness of the desktop\<close>

text \<open>The two tests \<^verbatim>\<open>is_desktop_painted\<close> makes on one output.\<close>

definition output_painted :: "desktop_output \<Rightarrow> bool" where
  "output_painted out \<longleftrightarrow>
     (case output_panel out of Some pn \<Rightarrow> panel_painted pn | None \<Rightarrow> True)
   \<and> (case output_background out of Some bg \<Rightarrow> background_painted bg | None \<Rightarrow> True)"

text \<open>How many times a list of requests tells the compositor that the desktop is ready.\<close>

definition ready_count :: "request list \<Rightarrow> nat" where
  "ready_count rs = length (filter (\<lambda>r. r = Desktop_shell_desktop_ready) rs)"

text \<open>The event is the redraw of a panel or of a background that exists.\<close>

definition is_redraw :: "event \<Rightarrow> desktop \<Rightarrow> bool" where
  "is_redraw ev d \<longleftrightarrow>
     (\<exists>i < length (outputs d).
        (ev = On_panel i Panel_redraw \<and> output_panel (outputs d ! i) \<noteq> None)
      \<or> (ev = On_background i Background_draw \<and> output_background (outputs d ! i) \<noteq> None))"

subsection \<open>Concrete inputs\<close>

text \<open>
  A desktop bound at version 2 with two outputs, each with an unpainted panel and no
  background; the same after the first panel was redrawn, and after the second was.
\<close>

definition two_panels :: desktop where
  "two_panels =
     \<lparr>interface_version = 2, unlocker = None,
      outputs = [\<lparr>output_panel = Some \<lparr>launcher_list = [], clock = True, panel_painted = False\<rparr>,
                   output_background = None\<rparr>,
                 \<lparr>output_panel = Some \<lparr>launcher_list = [], clock = True, panel_painted = False\<rparr>,
                   output_background = None\<rparr>],
      desktop_painted = False\<rparr>"

definition one_painted :: desktop where
  "one_painted = fst (dispatch (On_panel 0 Panel_redraw) two_panels)"

definition both_painted :: desktop where
  "both_painted = fst (dispatch (On_panel (Suc 0) Panel_redraw) one_painted)"

text \<open>A launcher of the terminal and a panel with no launcher.\<close>

definition terminal_launcher :: panel_launcher where
  "terminal_launcher =
     \<lparr>icon = ''terminal.png'', focused = False, pressed = False, path = ''/usr/bin/weston-terminal'',
      envp = [None], argv = [Some ''/usr/bin/weston-terminal'', None]\<rparr>"

definition empty_panel :: panel where
  "empty_panel = \<lparr>launcher_list = [], clock = True, panel_painted = False\<rparr>"



definition terminal_panel :: panel where
  "terminal_panel = \<lparr>launcher_list = [terminal_launcher], clock = True, panel_painted = False\<rparr>"

definition real_ops :: "real double_ops" where
  "real_ops =
     \<lparr>of_integer = real_of_int, quotient = (\<lambda>a b. a / b), product = (\<lambda>a b. a * b),
      difference = (\<lambda>a b. a - b), less_than = (\<lambda>a b. a < b), half = 1 / 2\<rparr>"

definition picture :: background where
  "picture = \<lparr>image = Some ''wall.png'', color = 0xff002244, background_painted = False,
              bg_type = BACKGROUND_SCALE_CROP\<rparr>"

definition assignments_line :: string where
  "assignments_line = ''A=1  B=2 ''"

definition example_line :: string where
  "example_line = ''FOO=bar  myprog BAZ=qux ''"

section \<open>Properties\<close>

subsection \<open>The parser of command lines\<close>

lemma scan_token_takeWhile:
  "scan_token (takeWhile (\<lambda>c. \<not> isspace c) s) n eq = scan_token s n eq"
  by (induction s arbitrary: n eq) auto

lemma token_eq_take: "token_eq (take (token_len s) s) = token_eq s"
  by (simp add: token_eq_def take_token_len scan_token_takeWhile)

lemma scan_token_snd_None:
  "snd (scan_token s n eq) = None \<longleftrightarrow> eq = None \<and> CHR ''='' \<notin> set (takeWhile (\<lambda>c. \<not> isspace c) s)"
  by (induction s arbitrary: n eq) auto

lemma ws_free_takeWhile: "ws_free t \<Longrightarrow> takeWhile (\<lambda>c. \<not> isspace c) t = t"
  by (simp add: ws_free_def)

lemma token_eq_None: "ws_free t \<Longrightarrow> token_eq t = None \<longleftrightarrow> \<not> has_eq t"
  by (simp add: token_eq_def scan_token_snd_None ws_free_takeWhile has_eq_def)

lemma token_len_ws_free: "ws_free t \<Longrightarrow> token_len t = length t"
  by (simp add: token_len_takeWhile ws_free_takeWhile)

lemma ws_free_token: "ws_free (take (token_len s) s)"
  unfolding take_token_len ws_free_def by (auto dest: set_takeWhileD)

lemma tokens_ws_free: "t \<in> set (tokens s) \<Longrightarrow> ws_free t"
proof (induction s rule: tokens.induct)
  case (1 start)
  show ?case
  proof (cases "start = []")
    case True
    with "1.prems" show ?thesis by (simp add: tokens.simps)
  next
    case False
    with "1.prems" have "t = take (token_len start) start \<or> t \<in> set (tokens (next_start start))"
      by (subst (asm) tokens.simps) simp
    with False "1.IH" show ?thesis by (auto simp: ws_free_token)
  qed
qed

lemma tok_step_arg: "a \<noteq> [] \<Longrightarrow> tok_step (e, a) t = (e, a @ [t])"
  by (simp add: tok_step_def add_token_def split: option.splits)

lemma tok_step_plain: "token_eq t = None \<Longrightarrow> tok_step (e, a) t = (e, a @ [t])"
  by (simp add: tok_step_def add_token_def)

lemma tok_step_env: "token_eq t = Some n \<Longrightarrow> tok_step (e, []) t = (env_set e t n, [])"
  by (simp add: tok_step_def add_token_def)

lemma parse_loop_tokens: "parse_loop s ea = foldl tok_step ea (tokens s)"
proof (induction s ea rule: parse_loop.induct)
  case (1 start ea)
  show ?case
  proof (cases "start = []")
    case True
    then show ?thesis by (simp add: parse_loop.simps tokens.simps)
  next
    case False
    have step: "add_token (take (token_len start) start) (token_eq start) ea
        = tok_step ea (take (token_len start) start)"
      by (simp add: tok_step_def token_eq_take)
    from False have "parse_loop start ea = parse_loop (next_start start)
        (add_token (take (token_len start) start) (token_eq start) ea)"
      by (subst parse_loop.simps) simp
    also have "\<dots> = foldl tok_step (tok_step ea (take (token_len start) start)) (tokens (next_start start))"
      using "1.IH" [OF False] by (simp only: step)
    also have "\<dots> = foldl tok_step ea (tokens start)"
      using False by (subst (2) tokens.simps) simp
    finally show ?thesis .
  qed
qed

lemma foldl_tok_step_args:
  "a \<noteq> [] \<Longrightarrow> foldl tok_step (e, a) ts = (e, a @ ts)"
  by (induction ts arbitrary: a) (simp_all add: tok_step_arg)

lemma foldl_tok_step_snd:
  "\<forall>t\<in>set ts. ws_free t \<Longrightarrow> snd (foldl tok_step (e, []) ts) = dropWhile has_eq ts"
proof (induction ts arbitrary: e)
  case Nil
  then show ?case by simp
next
  case (Cons t ts)
  show ?case
  proof (cases "has_eq t")
    case True
    with Cons.prems obtain n where "token_eq t = Some n"
      using token_eq_None [of t] by auto
    with True Cons show ?thesis by (simp add: tok_step_env)
  next
    case False
    with Cons.prems have "token_eq t = None"
      using token_eq_None [of t] by auto
    with False show ?thesis by (simp add: tok_step_plain foldl_tok_step_args)
  qed
qed

lemma parse_loop_argv: "snd (parse_loop p (e, [])) = arguments p"
  by (simp add: parse_loop_tokens arguments_def foldl_tok_step_snd tokens_ws_free)

lemma tokens_no_empty:
  "s \<noteq> [] \<Longrightarrow> \<not> isspace (hd s) \<Longrightarrow> [] \<notin> set (tokens s)"
proof (induction s rule: tokens.induct)
  case (1 start)
  from "1.prems" obtain c cs where start: "start = c # cs" and c: "\<not> isspace c"
    by (cases start) auto
  have first: "take (token_len start) start \<noteq> []"
    using start c by (simp add: take_token_len)
  have rest: "[] \<notin> set (tokens (next_start start))"
  proof (cases "next_start start = []")
    case True
    then show ?thesis by (simp add: tokens.simps)
  next
    case False
    moreover from False have "\<not> isspace (hd (next_start start))"
      unfolding next_start_def by (metis hd_dropWhile)
    ultimately show ?thesis using "1.IH" "1.prems" by simp
  qed
  show ?case using first rest "1.prems"(1) by (subst tokens.simps) auto
qed

lemma tokens_tl_no_empty: "[] \<notin> set (tl (tokens s))"
proof (cases "s = []")
  case True
  then show ?thesis by (simp add: tokens.simps)
next
  case False
  have "[] \<notin> set (tokens (next_start s))"
  proof (cases "next_start s = []")
    case True
    then show ?thesis by (simp add: tokens.simps)
  next
    case False
    moreover from False have "\<not> isspace (hd (next_start s))"
      unfolding next_start_def by (metis hd_dropWhile)
    ultimately show ?thesis by (rule tokens_no_empty)
  qed
  with False show ?thesis by (subst tokens.simps) simp
qed

lemma tokens_single: "ws_free t \<Longrightarrow> t \<noteq> [] \<Longrightarrow> tokens t = [t]"
  by (subst tokens.simps) (simp add: token_len_ws_free next_start_def tokens.simps)

lemma join_space_hd: "u \<noteq> [] \<Longrightarrow> join_space (u # ts) \<noteq> [] \<and> hd (join_space (u # ts)) = hd u"
  by (cases ts) auto

lemma tokens_join_space:
  "\<forall>t\<in>set ts. ws_free t \<Longrightarrow> [] \<notin> set (tl ts) \<Longrightarrow> ts \<noteq> [[]] \<Longrightarrow> tokens (join_space ts) = ts"
proof (induction ts rule: join_space.induct)
  case 1
  then show ?case by (simp add: tokens.simps)
next
  case (2 t)
  then show ?case by (simp add: tokens_single)
next
  case (3 t u ts)
  let ?rest = "join_space (u # ts)"
  let ?s = "t @ CHR '' '' # ?rest"
  from "3.prems" have t: "ws_free t" and u: "u \<noteq> []" and wu: "ws_free u" by auto
  have len: "token_len ?s = length t"
    using t by (simp add: token_len_takeWhile ws_free_def takeWhile_append2 isspace_def)
  have hd: "?rest \<noteq> [] \<and> hd ?rest = hd u" using u by (rule join_space_hd)
  have "\<not> isspace (hd u)" using u wu by (cases u) (auto simp: ws_free_def)
  with hd have "dropWhile isspace ?rest = ?rest" by (cases ?rest) auto
  then have nxt: "next_start ?s = ?rest"
    by (simp add: next_start_def len isspace_def)
  have "tokens ?rest = u # ts" using "3.IH" "3.prems" u by auto
  then have "tokens ?s = t # u # ts"
    by (subst tokens.simps) (simp add: len nxt)
  then show ?case by simp
qed

lemma tokens_only_space: "tokens p = [[]] \<longleftrightarrow> p \<noteq> [] \<and> (\<forall>c\<in>set p. isspace c)"
proof
  assume a: "tokens p = [[]]"
  then have ne: "p \<noteq> []" by (auto simp: tokens.simps)
  with a have "take (token_len p) p = []" and nx: "tokens (next_start p) = []"
    by (subst (asm) tokens.simps, simp)+
  then have "takeWhile (\<lambda>c. \<not> isspace c) p = []" by (simp add: take_token_len)
  then have dw: "dropWhile (\<lambda>c. \<not> isspace c) p = p"
    by (metis takeWhile_dropWhile_id append_Nil)
  from nx have "next_start p = []" by (subst (asm) tokens.simps) (simp split: if_splits)
  then have "dropWhile isspace p = []" by (simp add: next_start_def drop_token_len dw)
  then show "p \<noteq> [] \<and> (\<forall>c\<in>set p. isspace c)" using ne by (simp add: dropWhile_eq_Nil_conv)
next
  assume a: "p \<noteq> [] \<and> (\<forall>c\<in>set p. isspace c)"
  then obtain c cs where p: "p = c # cs" by (cases p) auto
  with a have "token_len p = 0" by (simp add: token_len_takeWhile)
  moreover from a have "dropWhile isspace p = []" by (simp add: dropWhile_eq_Nil_conv)
  ultimately show "tokens p = [[]]"
    using a by (subst tokens.simps) (simp add: next_start_def tokens.simps)
qed

lemma tokens_reconstruct:
  "tokens p \<noteq> [[]] \<Longrightarrow> tokens (reconstruct p) = tokens p"
  unfolding reconstruct_def env_overrides_def arguments_def takeWhile_dropWhile_id
  by (rule tokens_join_space) (auto simp: tokens_ws_free tokens_tl_no_empty)

subsection \<open>The unlock dialog\<close>








subsection \<open>The painted flags\<close>

lemma panel_apply_painted:
  "panel_painted (panel_apply op pn) = (panel_painted pn \<or> op = Panel_redraw)"
  by (cases op)
     (auto simp: panel_redraw_handler_def panel_resize_handler_def panel_configure_def
        panel_button_handler_def panel_add_launcher_def panel_read_config_def on_launcher_def)

lemma panel_ops_painted:
  "panel_painted (panel_ops ops pn) = (panel_painted pn \<or> Panel_redraw \<in> set ops)"
  by (induction ops arbitrary: pn) (auto simp: panel_apply_painted)

lemma background_apply_painted:
  "background_painted (background_apply op bg) = (background_painted bg \<or> op = Background_draw)"
  by (cases op)
     (auto simp: background_draw_def background_configure_def background_section_done_def Let_def)

lemma background_ops_painted:
  "background_painted (background_ops ops bg) = (background_painted bg \<or> Background_draw \<in> set ops)"
  by (induction ops arbitrary: bg) (auto simp: background_apply_painted)

text \<open>
  Claim C6. A panel and a background are created unpainted; after any operations, the flag
  is set exactly when a redraw was among them; the redraw sets it, every other operation
  leaves it as it is, and none clears it.
\<close>

theorem painted_set_once:
  "(panel_create malloc_ok timerfd_ok = Some pn \<longrightarrow>
       \<not> panel_painted pn
     \<and> panel_painted (panel_ops ops pn) = (Panel_redraw \<in> set ops))
   \<and> (panel_painted qn \<longrightarrow> panel_painted (panel_apply op qn))
   \<and> panel_painted (panel_apply Panel_redraw qn)
   \<and> (op \<noteq> Panel_redraw \<longrightarrow> panel_painted (panel_apply op qn) = panel_painted qn)
   \<and> \<not> background_painted background_create
   \<and> background_painted (background_ops bops background_create) = (Background_draw \<in> set bops)
   \<and> (background_painted bg \<longrightarrow> background_painted (background_apply bop bg))
   \<and> background_painted (background_apply Background_draw bg)
   \<and> (bop \<noteq> Background_draw \<longrightarrow> background_painted (background_apply bop bg) = background_painted bg)"
  by (auto simp: panel_ops_painted background_ops_painted panel_apply_painted
        background_apply_painted panel_create_def background_create_def
        panel_redraw_handler_def background_draw_def split: if_splits)

theorem painted_set_once_witness:
  "panel_create True True = Some \<lparr>launcher_list = [], clock = True, panel_painted = False\<rparr>
   \<and> \<not> panel_painted (panel_ops [Panel_resize 1024 32, Panel_configure 1024 600]
          \<lparr>launcher_list = [], clock = True, panel_painted = False\<rparr>)
   \<and> panel_painted (panel_ops [Panel_resize 1024 32, Panel_redraw, Panel_configure 1024 600, Panel_redraw]
          \<lparr>launcher_list = [], clock = True, panel_painted = False\<rparr>)
   \<and> panel_painted (panel_apply (Panel_configure 1024 600) \<lparr>launcher_list = [], clock = True, panel_painted = True\<rparr>)
   \<and> background_painted (background_apply (Background_section_done ''tile'' None 0xff002244)
          \<lparr>image = None, color = 0, background_painted = True, bg_type = BACKGROUND_SCALE\<rparr>)
   \<and> \<not> background_painted (background_apply (Background_section_done ''tile'' None 0xff002244) background_create)"
  using painted_set_once [of True True "\<lparr>launcher_list = [], clock = True, panel_painted = False\<rparr>"
      "[Panel_resize 1024 32, Panel_redraw, Panel_configure 1024 600, Panel_redraw]"
      "\<lparr>launcher_list = [], clock = True, panel_painted = True\<rparr>" "Panel_configure 1024 600"
      "[]" "\<lparr>image = None, color = 0, background_painted = True, bg_type = BACKGROUND_SCALE\<rparr>"
      "Background_section_done ''tile'' None 0xff002244"]
    painted_set_once [of True True "\<lparr>launcher_list = [], clock = True, panel_painted = False\<rparr>"
      "[Panel_resize 1024 32, Panel_configure 1024 600]"
      "\<lparr>launcher_list = [], clock = True, panel_painted = True\<rparr>" "Panel_configure 1024 600"
      "[]" background_create
      "Background_section_done ''tile'' None 0xff002244"]
  by (simp add: panel_create_def background_create_def)

subsection \<open>The pattern of the background\<close>

text \<open>
  Claim C8. With an image loaded, for every size of the image and of the allocation and
  whatever the arithmetic: \<^verbatim>\<open>BACKGROUND_SCALE\<close> sets the matrix that scales by the two
  quotients \<open>sx = im_w / aw\<close> and \<open>sy = im_h / ah\<close>; \<^verbatim>\<open>BACKGROUND_SCALE_CROP\<close> takes \<open>s\<close> as
  \<open>sx\<close> when \<open>sx < sy\<close> and as \<open>sy\<close> otherwise, and sets the matrix that translates by
  \<open>(im_w - s * aw) * 0.5\<close> and \<open>(im_h - s * ah) * 0.5\<close> and scales by \<open>s\<close> both ways;
  \<^verbatim>\<open>BACKGROUND_TILE\<close> sets no matrix and only makes the pattern repeat.
\<close>

theorem background_pattern_transform:
  "image bg = Some file \<and> load_cairo_surface file = Some (w, h) \<longrightarrow>
     (bg_type bg = BACKGROUND_SCALE \<longrightarrow>
        background_draw_source ops load_cairo_surface bg aw ah =
          [Cairo_pattern_create_for_surface,
           Cairo_matrix_init_scale
             (quotient ops (of_integer ops w) (of_integer ops aw))
             (quotient ops (of_integer ops h) (of_integer ops ah)),
           Cairo_pattern_set_matrix,
           Cairo_set_source])
   \<and> (bg_type bg = BACKGROUND_SCALE_CROP \<longrightarrow>
        (let sx = quotient ops (of_integer ops w) (of_integer ops aw);
             sy = quotient ops (of_integer ops h) (of_integer ops ah);
             s = (if less_than ops sx sy then sx else sy)
         in background_draw_source ops load_cairo_surface bg aw ah =
              [Cairo_pattern_create_for_surface,
               Cairo_matrix_init_translate
                 (product ops (difference ops (of_integer ops w) (product ops s (of_integer ops aw))) (half ops))
                 (product ops (difference ops (of_integer ops h) (product ops s (of_integer ops ah))) (half ops)),
               Cairo_matrix_scale s s,
               Cairo_pattern_set_matrix,
               Cairo_set_source]))
   \<and> (bg_type bg = BACKGROUND_TILE \<longrightarrow>
        background_draw_source ops load_cairo_surface bg aw ah =
          [Cairo_pattern_create_for_surface, Cairo_pattern_set_extend_repeat, Cairo_set_source])"
  by (simp add: background_draw_source_def Let_def)

theorem background_pattern_transform_witness:
  "image picture = Some ''wall.png''
   \<and> bg_type picture = BACKGROUND_SCALE_CROP
   \<and> background_draw_source real_ops (\<lambda>f. Some (1024, 768)) picture 512 512 =
        [Cairo_pattern_create_for_surface,
         Cairo_matrix_init_translate 128 0,
         Cairo_matrix_scale (3 / 2) (3 / 2),
         Cairo_pattern_set_matrix,
         Cairo_set_source]
   \<and> background_draw_source real_ops (\<lambda>f. Some (1024, 768)) (picture\<lparr>bg_type := BACKGROUND_SCALE\<rparr>) 512 512 =
        [Cairo_pattern_create_for_surface,
         Cairo_matrix_init_scale 2 (3 / 2),
         Cairo_pattern_set_matrix,
         Cairo_set_source]
   \<and> background_draw_source real_ops (\<lambda>f. Some (1024, 768)) (picture\<lparr>bg_type := BACKGROUND_TILE\<rparr>) 512 512 =
        [Cairo_pattern_create_for_surface, Cairo_pattern_set_extend_repeat, Cairo_set_source]"
proof -
  have p: "image picture = Some ''wall.png''" "bg_type picture = BACKGROUND_SCALE_CROP"
    by (simp_all add: picture_def)
  note t1 = background_pattern_transform [of picture "''wall.png''" "\<lambda>f. Some (1024, 768)" 1024 768 real_ops 512 512]
  note t2 = background_pattern_transform [of "picture\<lparr>bg_type := BACKGROUND_SCALE\<rparr>" "''wall.png''"
      "\<lambda>f. Some (1024, 768)" 1024 768 real_ops 512 512]
  note t3 = background_pattern_transform [of "picture\<lparr>bg_type := BACKGROUND_TILE\<rparr>" "''wall.png''"
      "\<lambda>f. Some (1024, 768)" 1024 768 real_ops 512 512]
  from t1 p have c1: "background_draw_source real_ops (\<lambda>f. Some (1024, 768)) picture 512 512 =
        [Cairo_pattern_create_for_surface,
         Cairo_matrix_init_translate 128 0,
         Cairo_matrix_scale (3 / 2) (3 / 2),
         Cairo_pattern_set_matrix,
         Cairo_set_source]"
    by (simp add: real_ops_def Let_def)
  from t2 p have c2: "background_draw_source real_ops (\<lambda>f. Some (1024, 768)) (picture\<lparr>bg_type := BACKGROUND_SCALE\<rparr>) 512 512 =
        [Cairo_pattern_create_for_surface,
         Cairo_matrix_init_scale 2 (3 / 2),
         Cairo_pattern_set_matrix,
         Cairo_set_source]"
    by (simp add: real_ops_def)
  from t3 p have c3: "background_draw_source real_ops (\<lambda>f. Some (1024, 768)) (picture\<lparr>bg_type := BACKGROUND_TILE\<rparr>) 512 512 =
        [Cairo_pattern_create_for_surface, Cairo_pattern_set_extend_repeat, Cairo_set_source]"
    by simp
  from p c1 c2 c3 show ?thesis by blast
qed

subsection \<open>The readiness of the desktop\<close>

lemma is_desktop_painted_all: "is_desktop_painted outs = list_all output_painted outs"
  by (induction outs) (auto simp: output_painted_def split: option.splits)

lemma check_ready_painted:
  "desktop_painted (fst (check_desktop_ready d)) = (desktop_painted d \<or> is_desktop_painted (outputs d))"
  by (simp add: check_desktop_ready_def)

lemma check_ready_outputs: "outputs (fst (check_desktop_ready d)) = outputs d"
  by (simp add: check_desktop_ready_def)

lemma check_ready_version: "interface_version (fst (check_desktop_ready d)) = interface_version d"
  by (simp add: check_desktop_ready_def)

lemma check_ready_requests:
  "snd (check_desktop_ready d) =
     (if \<not> desktop_painted d \<and> is_desktop_painted (outputs d) \<and> 2 \<le> interface_version d
      then [Desktop_shell_desktop_ready] else [])"
  by (simp add: check_desktop_ready_def)

lemma lock_surface_painted:
  "desktop_painted (fst (desktop_shell_prepare_lock_surface k m d)) = desktop_painted d"
  by (auto simp: desktop_shell_prepare_lock_surface_def split: option.splits prod.splits)

lemma lock_surface_no_ready:
  "Desktop_shell_desktop_ready \<notin> set (snd (desktop_shell_prepare_lock_surface k m d))"
  by (auto simp: desktop_shell_prepare_lock_surface_def unlocker_lock_def unlock_dialog_create_def
      split: option.splits prod.splits if_splits)

lemma ready_count_zero: "Desktop_shell_desktop_ready \<notin> set rs \<Longrightarrow> ready_count rs = 0"
  by (induction rs) (auto simp: ready_count_def)

lemma ready_count_append: "ready_count (rs @ rs') = ready_count rs + ready_count rs'"
  by (simp add: ready_count_def)

lemma run_Cons_fst: "fst (run (ev # evs) d) = fst (run evs (fst (dispatch ev d)))"
  by (simp split: prod.splits)

lemma run_Cons_snd: "snd (run (ev # evs) d) = snd (dispatch ev d) @ snd (run evs (fst (dispatch ev d)))"
  by (simp split: prod.splits)

lemma dispatch_ready_iff:
  "Desktop_shell_desktop_ready \<in> set (snd (dispatch ev d)) \<longleftrightarrow>
     \<not> desktop_painted d \<and> desktop_painted (fst (dispatch ev d)) \<and> 2 \<le> interface_version d"
proof (cases ev)
  case (Global_desktop_shell v)
  then show ?thesis by (simp add: global_handler_shell_def)
next
  case (Global_wl_output m t)
  then show ?thesis by (simp add: global_handler_output_def)
next
  case (On_panel i op)
  then show ?thesis
    by (auto simp: Let_def check_ready_painted check_ready_requests set_output_def
        split: option.splits)
next
  case (On_background i op)
  then show ?thesis
    by (auto simp: Let_def check_ready_painted check_ready_requests set_output_def
        split: option.splits)
next
  case (Prepare_lock_surface m)
  then show ?thesis by (simp add: lock_surface_painted lock_surface_no_ready)
qed

lemma dispatch_ready_count: "ready_count (snd (dispatch ev d)) \<le> 1"
proof (cases ev)
  case (Prepare_lock_surface m)
  then show ?thesis
    using lock_surface_no_ready [of True m d] by (simp add: ready_count_zero)
qed (auto simp: ready_count_def Let_def check_ready_requests split: option.splits)

lemma dispatch_painted_mono:
  "desktop_painted d \<Longrightarrow> desktop_painted (fst (dispatch ev d))"
  by (cases ev)
     (auto simp: Let_def check_ready_painted set_output_def global_handler_shell_def
        global_handler_output_def lock_surface_painted split: option.splits)

lemma dispatch_transition:
  "\<not> desktop_painted d \<Longrightarrow> desktop_painted (fst (dispatch ev d)) \<Longrightarrow>
     is_redraw ev d \<and> is_desktop_painted (outputs (fst (dispatch ev d)))"
  by (cases ev)
     (auto simp: Let_def check_ready_painted check_ready_outputs set_output_def
        global_handler_shell_def global_handler_output_def lock_surface_painted is_redraw_def
        split: option.splits if_splits)

lemma dispatch_redraw:
  "is_redraw ev d \<Longrightarrow>
     desktop_painted (fst (dispatch ev d)) =
       (desktop_painted d \<or> is_desktop_painted (outputs (fst (dispatch ev d))))"
  by (auto simp: is_redraw_def check_ready_painted check_ready_outputs Let_def set_output_def)

lemma run_painted_mono: "desktop_painted d \<Longrightarrow> desktop_painted (fst (run evs d))"
proof (induction evs arbitrary: d)
  case Nil
  then show ?case by simp
next
  case (Cons ev evs)
  from Cons.prems have "desktop_painted (fst (dispatch ev d))" by (rule dispatch_painted_mono)
  then have "desktop_painted (fst (run evs (fst (dispatch ev d))))" by (rule Cons.IH)
  then show ?case by (simp only: run_Cons_fst)
qed

lemma run_painted_quiet: "desktop_painted d \<Longrightarrow> ready_count (snd (run evs d)) = 0"
proof (induction evs arbitrary: d)
  case Nil
  then show ?case by (simp add: ready_count_def)
next
  case (Cons ev evs)
  from Cons.prems have p: "desktop_painted (fst (dispatch ev d))" by (rule dispatch_painted_mono)
  from Cons.prems have "Desktop_shell_desktop_ready \<notin> set (snd (dispatch ev d))"
    by (simp add: dispatch_ready_iff)
  then have "ready_count (snd (dispatch ev d)) = 0" by (rule ready_count_zero)
  moreover have "ready_count (snd (run evs (fst (dispatch ev d)))) = 0" using p by (rule Cons.IH)
  ultimately show ?case by (simp only: run_Cons_snd ready_count_append)
qed

lemma run_ready_count: "ready_count (snd (run evs d)) \<le> 1"
proof (induction evs arbitrary: d)
  case Nil
  then show ?case by (simp add: ready_count_def)
next
  case (Cons ev evs)
  obtain d' rs where disp: "dispatch ev d = (d', rs)" by (cases "dispatch ev d")
  have split: "ready_count (snd (run (ev # evs) d)) = ready_count rs + ready_count (snd (run evs d'))"
    by (simp only: run_Cons_snd ready_count_append disp fst_conv snd_conv)
  show ?case
  proof (cases "desktop_painted d'")
    case True
    then have "ready_count (snd (run evs d')) = 0" by (rule run_painted_quiet)
    moreover have "ready_count rs \<le> 1" using dispatch_ready_count [of ev d] disp by simp
    ultimately show ?thesis using split by simp
  next
    case False
    then have "Desktop_shell_desktop_ready \<notin> set rs"
      using dispatch_ready_iff [of ev d] disp by simp
    then have "ready_count rs = 0" by (rule ready_count_zero)
    moreover have "ready_count (snd (run evs d')) \<le> 1" by (rule Cons.IH)
    ultimately show ?thesis using split by simp
  qed
qed

lemma other_output_unpainted:
  assumes "j < length (outputs d)" "j \<noteq> i" "\<not> output_painted (outputs d ! j)"
  shows "\<not> is_desktop_painted ((outputs d)[i := out])"
proof -
  have "((outputs d)[i := out]) ! j = outputs d ! j" using assms by simp
  moreover have "j < length ((outputs d)[i := out])" using assms by simp
  ultimately have "\<exists>x\<in>set ((outputs d)[i := out]). \<not> output_painted x"
    using assms(3) by (metis nth_mem)
  then show ?thesis by (simp add: is_desktop_painted_all list_all_iff)
qed

lemma dispatch_other_unpainted:
  assumes "\<not> desktop_painted d" "j < length (outputs d)" "j \<noteq> i" "\<not> output_painted (outputs d ! j)"
  shows "dispatch (On_panel i op) d = (d', rs) \<Longrightarrow> \<not> desktop_painted d' \<and> rs = []"
    and "dispatch (On_background i bop) d = (d', rs) \<Longrightarrow> \<not> desktop_painted d' \<and> rs = []"
  using assms other_output_unpainted [OF assms(2,3,4)]
  by (auto simp: Let_def check_desktop_ready_def set_output_def split: option.splits if_splits)

text \<open>
  Claim C3. Over any run of events the compositor is told at most once that the desktop is
  ready, and once the desktop's flag is set it stays set and nothing more is told. The
  flag goes from clear to set only in the redraw of an existing panel or background, and
  only when every output's panel and background, where present, are painted; the
  compositor is told in an event exactly when the flag is set in it and the bound version
  is at least 2. A redraw sets the flag as soon as all is painted; while another output
  has an unpainted surface, a redraw neither sets the flag nor tells anything.
\<close>

theorem readiness_barrier:
  "ready_count (snd (run evs d)) \<le> 1
   \<and> (desktop_painted d \<longrightarrow>
        desktop_painted (fst (run evs d)) \<and> ready_count (snd (run evs d)) = 0)
   \<and> (\<not> desktop_painted d \<and> desktop_painted (fst (dispatch ev d)) \<longrightarrow>
        is_redraw ev d \<and> is_desktop_painted (outputs (fst (dispatch ev d))))
   \<and> (Desktop_shell_desktop_ready \<in> set (snd (dispatch ev d)) \<longleftrightarrow>
        \<not> desktop_painted d \<and> desktop_painted (fst (dispatch ev d)) \<and> 2 \<le> interface_version d)
   \<and> (is_redraw ev d \<longrightarrow>
        desktop_painted (fst (dispatch ev d)) =
          (desktop_painted d \<or> is_desktop_painted (outputs (fst (dispatch ev d)))))
   \<and> (\<not> desktop_painted d \<and> j < length (outputs d) \<and> j \<noteq> i \<and> \<not> output_painted (outputs d ! j) \<longrightarrow>
        \<not> desktop_painted (fst (dispatch (On_panel i op) d)) \<and> snd (dispatch (On_panel i op) d) = []
      \<and> \<not> desktop_painted (fst (dispatch (On_background i bop) d)) \<and> snd (dispatch (On_background i bop) d) = [])"
proof -
  have other: "\<not> desktop_painted (fst (dispatch (On_panel i op) d)) \<and> snd (dispatch (On_panel i op) d) = []
      \<and> \<not> desktop_painted (fst (dispatch (On_background i bop) d)) \<and> snd (dispatch (On_background i bop) d) = []"
    if h: "\<not> desktop_painted d" "j < length (outputs d)" "j \<noteq> i" "\<not> output_painted (outputs d ! j)"
    using dispatch_other_unpainted(1) [OF h, of op "fst (dispatch (On_panel i op) d)" "snd (dispatch (On_panel i op) d)"]
      dispatch_other_unpainted(2) [OF h, of bop "fst (dispatch (On_background i bop) d)" "snd (dispatch (On_background i bop) d)"]
    by simp
  show ?thesis
    using run_ready_count [of evs d] run_painted_mono [of d evs] run_painted_quiet [of d evs]
      dispatch_transition [of d ev] dispatch_ready_iff [of ev d] dispatch_redraw [of ev d] other
    by blast
qed

lemma two_panels_first:
  "dispatch (On_panel 0 Panel_redraw) two_panels =
     (two_panels\<lparr>outputs := [\<lparr>output_panel = Some \<lparr>launcher_list = [], clock = True, panel_painted = True\<rparr>,
                   output_background = None\<rparr>,
                 \<lparr>output_panel = Some \<lparr>launcher_list = [], clock = True, panel_painted = False\<rparr>,
                   output_background = None\<rparr>]\<rparr>, [])"
  by (simp add: two_panels_def set_output_def panel_redraw_handler_def check_desktop_ready_def)

lemma two_panels_run:
  "run [On_panel 0 Panel_redraw, On_panel 1 Panel_redraw, On_panel 0 Panel_redraw] two_panels =
     (two_panels\<lparr>outputs := [\<lparr>output_panel = Some \<lparr>launcher_list = [], clock = True, panel_painted = True\<rparr>,
                   output_background = None\<rparr>,
                 \<lparr>output_panel = Some \<lparr>launcher_list = [], clock = True, panel_painted = True\<rparr>,
                   output_background = None\<rparr>], desktop_painted := True\<rparr>, [Desktop_shell_desktop_ready])"
  by (simp add: two_panels_def set_output_def panel_redraw_handler_def check_desktop_ready_def)

lemma one_painted_eq:
  "one_painted = two_panels\<lparr>outputs := [\<lparr>output_panel = Some \<lparr>launcher_list = [], clock = True, panel_painted = True\<rparr>,
                   output_background = None\<rparr>,
                 \<lparr>output_panel = Some \<lparr>launcher_list = [], clock = True, panel_painted = False\<rparr>,
                   output_background = None\<rparr>]\<rparr>"
  unfolding one_painted_def by (simp only: two_panels_first fst_conv)

lemma both_painted_eq:
  "both_painted =
     two_panels\<lparr>outputs := [\<lparr>output_panel = Some \<lparr>launcher_list = [], clock = True, panel_painted = True\<rparr>,
                   output_background = None\<rparr>,
                 \<lparr>output_panel = Some \<lparr>launcher_list = [], clock = True, panel_painted = True\<rparr>,
                   output_background = None\<rparr>], desktop_painted := True\<rparr>"
  unfolding both_painted_def
  by (simp add: one_painted_eq two_panels_def set_output_def panel_redraw_handler_def check_desktop_ready_def)

theorem readiness_barrier_witness:
  "\<not> desktop_painted two_panels
   \<and> Suc 0 < length (outputs two_panels)
   \<and> \<not> output_painted (outputs two_panels ! Suc 0)
   \<and> \<not> desktop_painted one_painted
   \<and> snd (dispatch (On_panel 0 Panel_redraw) two_panels) = []
   \<and> is_redraw (On_panel (Suc 0) Panel_redraw) one_painted
   \<and> desktop_painted both_painted
   \<and> is_desktop_painted (outputs both_painted)
   \<and> Desktop_shell_desktop_ready \<in> set (snd (dispatch (On_panel (Suc 0) Panel_redraw) one_painted))
   \<and> 2 \<le> interface_version one_painted
   \<and> desktop_painted (fst (run [On_panel 0 Panel_redraw, On_background 0 Background_draw] both_painted))
   \<and> ready_count (snd (run [On_panel 0 Panel_redraw, On_background 0 Background_draw] both_painted)) = 0
   \<and> ready_count (snd (run [On_panel 0 Panel_redraw, On_panel (Suc 0) Panel_redraw, On_panel 0 Panel_redraw] two_panels)) \<le> 1"
proof -
  have a: "\<not> desktop_painted two_panels" "Suc 0 < length (outputs two_panels)"
      "\<not> output_painted (outputs two_panels ! Suc 0)"
    by (simp_all add: two_panels_def output_painted_def)
  have b: "\<not> desktop_painted one_painted" "is_redraw (On_panel (Suc 0) Panel_redraw) one_painted"
      "2 \<le> interface_version one_painted"
    by (simp_all add: one_painted_eq two_panels_def is_redraw_def)
  have c: "desktop_painted both_painted"
    by (simp add: both_painted_eq)
  note t1 = readiness_barrier [of "[On_panel 0 Panel_redraw, On_background 0 Background_draw]" both_painted
      "On_panel 0 Panel_redraw" "Suc 0" 0 Panel_redraw Background_draw]
  note t2 = readiness_barrier [of "[]" one_painted "On_panel (Suc 0) Panel_redraw" "Suc 0" 0 Panel_redraw Background_draw,
      folded both_painted_def]
  note t3 = readiness_barrier [of "[On_panel 0 Panel_redraw, On_panel (Suc 0) Panel_redraw, On_panel 0 Panel_redraw]"
      two_panels "On_panel 0 Panel_redraw" "Suc 0" 0 Panel_redraw Background_draw, folded one_painted_def]
  from t3 a have w3: "snd (dispatch (On_panel 0 Panel_redraw) two_panels) = []"
      "ready_count (snd (run [On_panel 0 Panel_redraw, On_panel (Suc 0) Panel_redraw, On_panel 0 Panel_redraw] two_panels)) \<le> 1"
    by blast+
  from t2 b c have w2: "is_desktop_painted (outputs both_painted)"
      "Desktop_shell_desktop_ready \<in> set (snd (dispatch (On_panel (Suc 0) Panel_redraw) one_painted))"
    by blast+
  from t1 c have w1: "desktop_painted (fst (run [On_panel 0 Panel_redraw, On_background 0 Background_draw] both_painted))"
      "ready_count (snd (run [On_panel 0 Panel_redraw, On_background 0 Background_draw] both_painted)) = 0"
    by blast+
  from a b c w1 w2 w3 show ?thesis by blast
qed

subsection \<open>Launchers and the configuration\<close>

text \<open>
  Claim C5 says that releases of buttons other than the left one do not activate a
  launcher. The handler never reads the button: a release of the right button, on a
  launcher that is not even focused, runs the command in the child.
\<close>

theorem right_release_activates:
  "snd (panel_launcher_button_handler terminal_launcher BTN_RIGHT WL_POINTER_BUTTON_STATE_RELEASED 0)
     = Some (Child_execve (Some ''/usr/bin/weston-terminal'') [Some ''/usr/bin/weston-terminal'', None] [None])"
  by (simp add: panel_launcher_button_handler_def panel_launcher_activate_def terminal_launcher_def)

text \<open>
  Claim C5, amended. A button event delivered to a launcher activates it exactly when it is
  a release, whatever the button and whatever the focus; a press does not. The child of
  the activation calls \<^verbatim>\<open>execve\<close> with the first entry of \<open>argv\<close> as the path.
\<close>

theorem launcher_activated_on_release:
  "(snd (panel_launcher_button_handler l button state pid) \<noteq> None
      \<longleftrightarrow> state = WL_POINTER_BUTTON_STATE_RELEASED)
   \<and> (state = WL_POINTER_BUTTON_STATE_RELEASED \<longrightarrow>
        snd (panel_launcher_button_handler l button state pid) = Some (panel_launcher_activate l pid))
   \<and> (state = WL_POINTER_BUTTON_STATE_PRESSED \<longrightarrow>
        snd (panel_launcher_button_handler l button state pid) = None)
   \<and> (argv l = a0 # rest \<longrightarrow> panel_launcher_activate l 0 = Child_execve a0 (argv l) (envp l))"
  by (cases state) (simp_all add: panel_launcher_button_handler_def panel_launcher_activate_def)

theorem launcher_activated_on_release_witness:
  "snd (panel_launcher_button_handler terminal_launcher BTN_LEFT WL_POINTER_BUTTON_STATE_RELEASED 0)
     = Some (Child_execve (Some ''/usr/bin/weston-terminal'') [Some ''/usr/bin/weston-terminal'', None] [None])
   \<and> snd (panel_launcher_button_handler terminal_launcher BTN_MIDDLE WL_POINTER_BUTTON_STATE_RELEASED 0)
     = Some (Child_execve (Some ''/usr/bin/weston-terminal'') [Some ''/usr/bin/weston-terminal'', None] [None])
   \<and> snd (panel_launcher_button_handler terminal_launcher BTN_LEFT WL_POINTER_BUTTON_STATE_PRESSED 0) = None"
  using launcher_activated_on_release [of terminal_launcher BTN_LEFT WL_POINTER_BUTTON_STATE_RELEASED 0
      "Some ''/usr/bin/weston-terminal''" "[None]"]
    launcher_activated_on_release [of terminal_launcher BTN_MIDDLE WL_POINTER_BUTTON_STATE_RELEASED 0
      "Some ''/usr/bin/weston-terminal''" "[None]"]
    launcher_activated_on_release [of terminal_launcher BTN_LEFT WL_POINTER_BUTTON_STATE_PRESSED 0
      "Some ''/usr/bin/weston-terminal''" "[None]"]
  by (simp add: terminal_launcher_def)

text \<open>
  Claim C4 says that a configuration with no launcher section gives the panel one default
  launcher. When the parser returns 0, the panel it left without a launcher stays
  without one.
\<close>

theorem parsed_config_no_default:
  "launcher_list empty_panel = []
   \<and> launcher_list (fst (panel_read_config [] ''/usr/share'' ''/usr/bin'' empty_panel 0)) = []"
  by (simp add: panel_read_config_def empty_panel_def)

lemma parse_path_one_word:
  assumes "ws_free t" "t \<noteq> []" "\<not> has_eq t"
  shows "parse_path environ t = (map Some environ @ [None], [Some t, None])"
proof -
  have "token_eq t = None" using assms by (simp add: token_eq_None)
  then have "foldl tok_step (environ, []) [t] = (environ, [t])" by (simp add: tok_step_plain)
  then show ?thesis using assms by (simp add: parse_path_def parse_loop_tokens tokens_single)
qed

text \<open>
  Claim C4, amended. \<^verbatim>\<open>panel_read_config\<close> leaves the launchers the parser gave the panel
  and, exactly when the parser returned a negative value, appends one launcher after them,
  made from the icon \<^verbatim>\<open>DATADIR/weston/terminal.png\<close> and the command line
  \<^verbatim>\<open>BINDIR/weston-terminal\<close>; the rest of the panel is unchanged and the parser's value is
  returned. When \<^verbatim>\<open>BINDIR\<close> has no white space and no \<^verbatim>\<open>=\<close>, that command line is the
  launcher's path and its one argument, and the environment is passed as it is.
\<close>

theorem default_launcher_on_failure:
  "launcher_list (fst (panel_read_config environ DATADIR BINDIR pn ret)) =
     launcher_list pn @
       (if ret < 0
        then [\<lparr>icon = DATADIR @ ''/weston/terminal.png'', focused = False, pressed = False,
               path = take (token_len (BINDIR @ ''/weston-terminal'')) (BINDIR @ ''/weston-terminal''),
               envp = fst (parse_path environ (BINDIR @ ''/weston-terminal'')),
               argv = snd (parse_path environ (BINDIR @ ''/weston-terminal''))\<rparr>]
        else [])
   \<and> clock (fst (panel_read_config environ DATADIR BINDIR pn ret)) = clock pn
   \<and> panel_painted (fst (panel_read_config environ DATADIR BINDIR pn ret)) = panel_painted pn
   \<and> snd (panel_read_config environ DATADIR BINDIR pn ret) = ret
   \<and> (ws_free BINDIR \<and> \<not> has_eq BINDIR \<longrightarrow>
        take (token_len (BINDIR @ ''/weston-terminal'')) (BINDIR @ ''/weston-terminal'')
          = BINDIR @ ''/weston-terminal''
      \<and> parse_path environ (BINDIR @ ''/weston-terminal'')
          = (map Some environ @ [None], [Some (BINDIR @ ''/weston-terminal''), None]))"
proof -
  have w: "ws_free (BINDIR @ ''/weston-terminal'')" "\<not> has_eq (BINDIR @ ''/weston-terminal'')"
    if "ws_free BINDIR" "\<not> has_eq BINDIR"
    using that by (auto simp: ws_free_def has_eq_def isspace_def)
  have "take (token_len (BINDIR @ ''/weston-terminal'')) (BINDIR @ ''/weston-terminal'')
          = BINDIR @ ''/weston-terminal''
      \<and> parse_path environ (BINDIR @ ''/weston-terminal'')
          = (map Some environ @ [None], [Some (BINDIR @ ''/weston-terminal''), None])"
    if "ws_free BINDIR" "\<not> has_eq BINDIR"
    using w [OF that] parse_path_one_word [of "BINDIR @ ''/weston-terminal''" environ]
    by (simp add: token_len_ws_free)
  then show ?thesis
    by (simp add: panel_read_config_def panel_add_launcher_def)
qed

theorem default_launcher_on_failure_witness:
  "ws_free ''/usr/bin'' \<and> \<not> has_eq ''/usr/bin''
   \<and> launcher_list (fst (panel_read_config [''HOME=/root''] ''/usr/share'' ''/usr/bin'' terminal_panel (- 1)))
      = [terminal_launcher,
         \<lparr>icon = ''/usr/share/weston/terminal.png'', focused = False, pressed = False,
          path = ''/usr/bin/weston-terminal'',
          envp = [Some ''HOME=/root'', None], argv = [Some ''/usr/bin/weston-terminal'', None]\<rparr>]
   \<and> launcher_list (fst (panel_read_config [''HOME=/root''] ''/usr/share'' ''/usr/bin'' terminal_panel 0))
      = [terminal_launcher]
   \<and> launcher_list (fst (panel_read_config [''HOME=/root''] ''/usr/share'' ''/usr/bin'' empty_panel 0)) = []"
proof -
  have h: "ws_free ''/usr/bin''" "\<not> has_eq ''/usr/bin''"
    by (simp_all add: ws_free_def has_eq_def isspace_def)
  note t1 = default_launcher_on_failure [of "[''HOME=/root'']" "''/usr/share''" "''/usr/bin''" terminal_panel "- 1"]
  note t2 = default_launcher_on_failure [of "[''HOME=/root'']" "''/usr/share''" "''/usr/bin''" terminal_panel 0]
  note t3 = default_launcher_on_failure [of "[''HOME=/root'']" "''/usr/share''" "''/usr/bin''" empty_panel 0]
  from t1 h have e: "take (token_len (''/usr/bin'' @ ''/weston-terminal'')) (''/usr/bin'' @ ''/weston-terminal'')
          = ''/usr/bin'' @ ''/weston-terminal''"
      "parse_path [''HOME=/root''] (''/usr/bin'' @ ''/weston-terminal'')
          = (map Some [''HOME=/root''] @ [None], [Some (''/usr/bin'' @ ''/weston-terminal''), None])"
    by blast+
  have r1: "launcher_list (fst (panel_read_config [''HOME=/root''] ''/usr/share'' ''/usr/bin'' terminal_panel (- 1))) =
     launcher_list terminal_panel @
       (if (- 1 :: int) < 0
        then [\<lparr>icon = ''/usr/share'' @ ''/weston/terminal.png'', focused = False, pressed = False,
               path = take (token_len (''/usr/bin'' @ ''/weston-terminal'')) (''/usr/bin'' @ ''/weston-terminal''),
               envp = fst (parse_path [''HOME=/root''] (''/usr/bin'' @ ''/weston-terminal'')),
               argv = snd (parse_path [''HOME=/root''] (''/usr/bin'' @ ''/weston-terminal''))\<rparr>]
        else [])"
    by (rule t1 [THEN conjunct1])
  have l1: "launcher_list (fst (panel_read_config [''HOME=/root''] ''/usr/share'' ''/usr/bin'' terminal_panel (- 1)))
      = [terminal_launcher,
         \<lparr>icon = ''/usr/share/weston/terminal.png'', focused = False, pressed = False,
          path = ''/usr/bin/weston-terminal'',
          envp = [Some ''HOME=/root'', None], argv = [Some ''/usr/bin/weston-terminal'', None]\<rparr>]"
    unfolding r1 e by (simp add: terminal_panel_def)
  from t2 have l2: "launcher_list (fst (panel_read_config [''HOME=/root''] ''/usr/share'' ''/usr/bin'' terminal_panel 0))
      = [terminal_launcher]"
    by (simp add: terminal_panel_def)
  from t3 have l3: "launcher_list (fst (panel_read_config [''HOME=/root''] ''/usr/share'' ''/usr/bin'' empty_panel 0)) = []"
    by (simp add: empty_panel_def)
  from h l1 l2 l3 show ?thesis by blast
qed

subsection \<open>The lock surface\<close>

lemma dispatch_unlocker_None: "unlocker d = None \<Longrightarrow> unlocker (fst (dispatch ev d)) = None"
  by (cases ev)
     (auto simp: Let_def check_desktop_ready_def set_output_def global_handler_shell_def
        global_handler_output_def desktop_shell_prepare_lock_surface_def split: option.splits)

lemma run_unlocker_None: "unlocker d = None \<Longrightarrow> unlocker (fst (run evs d)) = None"
proof (induction evs arbitrary: d)
  case Nil
  then show ?case by simp
next
  case (Cons ev evs)
  from Cons.prems have "unlocker (fst (dispatch ev d)) = None" by (rule dispatch_unlocker_None)
  then have "unlocker (fst (run evs (fst (dispatch ev d)))) = None" by (rule Cons.IH)
  then show ?case by (simp only: run_Cons_fst)
qed

text \<open>
  Claim C1 on the code. \<^verbatim>\<open>main\<close> stores what \<^verbatim>\<open>unlocker_create\<close> returns, which is \<^verbatim>\<open>NULL\<close>, and
  no event stores another unlocker: with locking enabled, the request for a lock surface is
  answered by an unlock at once, at startup and after any run of events.
\<close>

theorem lock_surface_unlocks_at_once:
  "unlocker main_desktop = None
   \<and> desktop_shell_prepare_lock_surface True malloc_ok main_desktop = (main_desktop, [Desktop_shell_unlock])
   \<and> unlocker (fst (run evs main_desktop)) = None
   \<and> snd (dispatch (Prepare_lock_surface malloc_ok) (fst (run evs main_desktop))) = [Desktop_shell_unlock]"
proof -
  have m: "unlocker main_desktop = None" by (simp add: main_desktop_def unlocker_create_def)
  then have r: "unlocker (fst (run evs main_desktop)) = None" by (rule run_unlocker_None)
  show ?thesis using m r by (simp add: desktop_shell_prepare_lock_surface_def)
qed

theorem lock_surface_unlocks_at_once_witness:
  "desktop_shell_prepare_lock_surface True True main_desktop = (main_desktop, [Desktop_shell_unlock])
   \<and> unlocker (fst (run [Global_desktop_shell 2, Global_wl_output True True, On_panel 0 Panel_redraw]
         main_desktop)) = None
   \<and> snd (dispatch (Prepare_lock_surface True)
         (fst (run [Global_desktop_shell 2, Global_wl_output True True, On_panel 0 Panel_redraw]
            main_desktop))) = [Desktop_shell_unlock]"
  using lock_surface_unlocks_at_once
    [of True "[Global_desktop_shell 2, Global_wl_output True True, On_panel 0 Panel_redraw]"]
  by (simp only: simp_thms)

subsection \<open>Command lines\<close>

lemma parse_path_tokens:
  "tokens q = tokens p \<Longrightarrow> parse_path environ q = parse_path environ p"
  by (simp add: parse_path_def parse_loop_tokens)

lemma parse_path_argv: "snd (parse_path environ p) = map Some (arguments p) @ [None]"
proof -
  obtain e a where ea: "parse_loop p (environ, []) = (e, a)" by (cases "parse_loop p (environ, [])")
  then have "a = arguments p" using parse_loop_argv [of p environ] by simp
  with ea show ?thesis by (simp add: parse_path_def)
qed

lemma parse_path_envp_last: "fst (parse_path environ p) \<noteq> [] \<and> last (fst (parse_path environ p)) = None"
  by (cases "parse_loop p (environ, [])") (simp add: parse_path_def)

lemma not_plain_tokens: "\<not> plain_after_first p \<Longrightarrow> tokens p \<noteq> [[]]"
proof
  assume n: "\<not> plain_after_first p" and t: "tokens p = [[]]"
  from t have "tl (arguments p) = []" by (simp add: arguments_def)
  then have "plain_after_first p" by (simp add: plain_after_first_def)
  with n show False by simp
qed

lemma reparse:
  assumes "tokens p \<noteq> [[]]"
  shows "env_overrides (reconstruct p) = env_overrides p
       \<and> arguments (reconstruct p) = arguments p
       \<and> parse_path environ (reconstruct p) = parse_path environ p"
proof -
  have t: "tokens (reconstruct p) = tokens p" using assms by (rule tokens_reconstruct)
  then show ?thesis
    using parse_path_tokens [OF t, of environ] by (simp add: env_overrides_def arguments_def)
qed

lemma foldl_tok_step_fst:
  "\<forall>t\<in>set ts. ws_free t \<Longrightarrow>
     fst (foldl tok_step (e, []) ts) = foldl env_merge e (takeWhile has_eq ts)"
proof (induction ts arbitrary: e)
  case Nil
  then show ?case by simp
next
  case (Cons t ts)
  show ?case
  proof (cases "has_eq t")
    case True
    with Cons.prems obtain n where n: "token_eq t = Some n"
      using token_eq_None [of t] by auto
    then have "env_merge e t = env_set e t n" by (simp add: env_merge_def)
    with True n Cons show ?thesis by (simp add: tok_step_env)
  next
    case False
    with Cons.prems have "token_eq t = None"
      using token_eq_None [of t] by auto
    with False show ?thesis by (simp add: tok_step_plain foldl_tok_step_args)
  qed
qed

lemma parse_loop_envp: "fst (parse_loop p (e, [])) = foldl env_merge e (env_overrides p)"
  by (simp add: parse_loop_tokens env_overrides_def foldl_tok_step_fst tokens_ws_free)

lemma parse_path_envp: "fst (parse_path environ p) = map Some (foldl env_merge environ (env_overrides p)) @ [None]"
proof -
  obtain e a where ea: "parse_loop p (environ, []) = (e, a)" by (cases "parse_loop p (environ, [])")
  then have "e = foldl env_merge environ (env_overrides p)" using parse_loop_envp [of p environ] by simp
  with ea show ?thesis by (simp add: parse_path_def)
qed

text \<open>
  Claim C2 on the code. The comparison reads only the characters before the last \<^verbatim>\<open>=\<close> of
  the token: a variable whose name merely starts with the token's name is replaced, and a
  variable of the same name is kept, with the token appended, when the value holds a \<^verbatim>\<open>=\<close>.
\<close>

theorem longer_name_replaced:
  "fst (parse_path [''FOOBAR=1'', ''HOME=/root''] ''FOO=x /usr/bin/prog'')
     = [Some ''FOO=x'', Some ''HOME=/root'', None]
   \<and> fst (parse_path [''FOO=old''] ''FOO=a=b /usr/bin/prog'')
     = [Some ''FOO=old'', Some ''FOO=a=b'', None]"
  by code_simp

text \<open>
  Claim C9 says that a command line with no \<^verbatim>\<open>=\<close> after its first plain token parses again
  to the same result from its reconstruction, and that some line with a \<^verbatim>\<open>=\<close> after its
  first plain token does not. A line of one space has the empty string as its only token,
  an argument; its reconstruction is the empty line, which has no argument. And no line
  with a \<^verbatim>\<open>=\<close> after its first plain token parses differently from its reconstruction.
\<close>

theorem whitespace_line_reparse_differs:
  "plain_after_first '' ''
   \<and> snd (parse_path [] '' '') = [Some [], None]
   \<and> reconstruct '' '' = []
   \<and> snd (parse_path [] (reconstruct '' '')) = [None]
   \<and> parse_path [] (reconstruct '' '') \<noteq> parse_path [] '' ''
   \<and> \<not> (\<exists>p environ. \<not> plain_after_first p
          \<and> parse_path environ (reconstruct p) \<noteq> parse_path environ p)"
proof -
  have a: "plain_after_first '' ''" "snd (parse_path [] '' '') = [Some [], None]"
      "reconstruct '' '' = []" "snd (parse_path [] (reconstruct '' '')) = [None]"
    by code_simp+
  from a(2,4) have b: "parse_path [] (reconstruct '' '') \<noteq> parse_path [] '' ''"
    by (metis list.inject option.distinct(1))
  have c: "\<not> (\<exists>p environ. \<not> plain_after_first p
          \<and> parse_path environ (reconstruct p) \<noteq> parse_path environ p)"
    using reparse not_plain_tokens by blast
  from a b c show ?thesis by (simp only: simp_thms)
qed

text \<open>
  Claim C9, amended. For every command line that is empty or holds a character that is not
  white space, the reconstruction parses to the same overrides, the same arguments and, from
  any environment, the same two arrays. This holds as well for every line with a \<^verbatim>\<open>=\<close> in a
  token after the first plain one: no such line parses differently from its
  reconstruction. The \<open>argv\<close> of the parser is the arguments followed by \<^verbatim>\<open>NULL\<close>, and
  its \<open>envp\<close> is the environment with the overrides merged in order, followed by \<^verbatim>\<open>NULL\<close>.
\<close>

theorem reparse_reconstructed:
  "(p = [] \<or> (\<exists>c\<in>set p. \<not> isspace c) \<longrightarrow>
        env_overrides (reconstruct p) = env_overrides p
      \<and> arguments (reconstruct p) = arguments p
      \<and> parse_path environ (reconstruct p) = parse_path environ p)
   \<and> (\<not> plain_after_first p \<longrightarrow>
        env_overrides (reconstruct p) = env_overrides p
      \<and> arguments (reconstruct p) = arguments p
      \<and> parse_path environ (reconstruct p) = parse_path environ p)
   \<and> snd (parse_path environ p) = map Some (arguments p) @ [None]
   \<and> fst (parse_path environ p) = map Some (foldl env_merge environ (env_overrides p)) @ [None]"
proof -
  have "tokens p \<noteq> [[]]" if "p = [] \<or> (\<exists>c\<in>set p. \<not> isspace c)"
    using that by (auto simp: tokens_only_space)
  then show ?thesis
    using reparse [of p environ] not_plain_tokens [of p] parse_path_argv [of environ p]
      parse_path_envp [of environ p]
    by blast
qed

theorem reparse_reconstructed_witness:
  "(\<exists>c\<in>set example_line. \<not> isspace c)
   \<and> \<not> plain_after_first example_line
   \<and> env_overrides example_line = [''FOO=bar'']
   \<and> arguments example_line = [''myprog'', ''BAZ=qux'']
   \<and> reconstruct example_line = ''FOO=bar myprog BAZ=qux''
   \<and> env_overrides (reconstruct example_line) = env_overrides example_line
   \<and> parse_path [''FOO=1''] (reconstruct example_line) = parse_path [''FOO=1''] example_line
   \<and> snd (parse_path [''FOO=1''] example_line) = map Some (arguments example_line) @ [None]"
proof -
  have h: "\<exists>c\<in>set example_line. \<not> isspace c" by (simp add: example_line_def isspace_def)
  have n: "\<not> plain_after_first example_line" by code_simp
  have e: "env_overrides example_line = [''FOO=bar'']"
      "arguments example_line = [''myprog'', ''BAZ=qux'']"
      "reconstruct example_line = ''FOO=bar myprog BAZ=qux''"
    by code_simp+
  note t = reparse_reconstructed [of example_line "[''FOO=1'']"]
  from t n have r: "env_overrides (reconstruct example_line) = env_overrides example_line"
    "parse_path [''FOO=1''] (reconstruct example_line) = parse_path [''FOO=1''] example_line"
    "snd (parse_path [''FOO=1''] example_line) = map Some (arguments example_line) @ [None]"
    by (simp_all only: not_False_eq_True simp_thms)
  from h n e r show ?thesis by (simp only: simp_thms)
qed

lemma all_assignments_no_arguments: "list_all has_eq (tokens p) \<Longrightarrow> arguments p = []"
  by (simp add: arguments_def list_all_iff)

lemma words_of_dropWhile: "words_of (dropWhile isspace s) = words_of s"
  by (subst words_of.simps, subst (2) words_of.simps) (simp add: dropWhile_idem)

lemma tokens_words:
  "s = [] \<or> \<not> isspace (hd s) \<Longrightarrow> tokens s = words_of s"
proof (induction s rule: tokens.induct)
  case (1 start)
  show ?case
  proof (cases "start = []")
    case True
    then show ?thesis by (simp add: tokens.simps words_of.simps)
  next
    case False
    with "1.prems" have hd: "\<not> isspace (hd start)" by simp
    with False have dw: "dropWhile isspace start = start" by (cases start) auto
    have nxt: "next_start start = dropWhile isspace (dropWhile (\<lambda>c. \<not> isspace c) start)"
      by (simp add: next_start_def drop_token_len)
    have "next_start start = [] \<or> \<not> isspace (hd (next_start start))"
      unfolding nxt by (metis hd_dropWhile)
    then have "tokens (next_start start) = words_of (next_start start)"
      using "1.IH" [OF False] by simp
    also have "\<dots> = words_of (dropWhile (\<lambda>c. \<not> isspace c) start)"
      unfolding nxt by (rule words_of_dropWhile)
    finally have rest: "tokens (next_start start) = words_of (dropWhile (\<lambda>c. \<not> isspace c) start)" .
    have "tokens start = takeWhile (\<lambda>c. \<not> isspace c) start # tokens (next_start start)"
      using False by (subst tokens.simps) (simp add: take_token_len)
    moreover have "words_of start = takeWhile (\<lambda>c. \<not> isspace c) start
        # words_of (dropWhile (\<lambda>c. \<not> isspace c) start)"
      using False by (subst words_of.simps) (simp add: dw)
    ultimately show ?thesis using rest by simp
  qed
qed

text \<open>
  Claim C10 says that a command line made of assignments only has the \<^verbatim>\<open>NULL\<close> terminator
  as its whole \<open>argv\<close>. On a line that starts with white space the loop stores the empty
  string as the first argument, and every word after it is an argument as well: the child
  calls \<^verbatim>\<open>execve\<close> with the empty string as the path.
\<close>

theorem leading_space_empty_program:
  "list_all has_eq (words_of '' A=1 B=2'')
   \<and> snd (parse_path [] '' A=1 B=2'') = [Some [], Some ''A=1'', Some ''B=2'', None]
   \<and> panel_launcher_activate
        (last (launcher_list (panel_add_launcher [] empty_panel ''x.png'' '' A=1 B=2''))) 0
      = Child_execve (Some []) [Some [], Some ''A=1'', Some ''B=2'', None] [None]"
proof -
  have a: "list_all has_eq (words_of '' A=1 B=2'')"
      "snd (parse_path [] '' A=1 B=2'') = [Some [], Some ''A=1'', Some ''B=2'', None]"
      "fst (parse_path [] '' A=1 B=2'') = [None]"
    by code_simp+
  then show ?thesis
    by (simp add: panel_add_launcher_def panel_launcher_activate_def)
qed

text \<open>
  Claim C10, amended. When the command line does not start with white space and every
  word of it has a \<^verbatim>\<open>=\<close>, the launcher's \<open>argv\<close> holds the \<^verbatim>\<open>NULL\<close> terminator alone, and the
  child of an activation calls \<^verbatim>\<open>execve\<close> with a \<^verbatim>\<open>NULL\<close> path; on such lines the tokens of the
  loop are the words of the line. For every command line both \<open>argv\<close> and \<open>envp\<close> end with
  a \<^verbatim>\<open>NULL\<close> entry.
\<close>

theorem assignments_only_null_argv:
  "((p = [] \<or> \<not> isspace (hd p)) \<and> list_all has_eq (words_of p) \<longrightarrow>
        argv (last (launcher_list (panel_add_launcher environ pn ic p))) = [None]
      \<and> panel_launcher_activate (last (launcher_list (panel_add_launcher environ pn ic p))) 0
          = Child_execve None [None] (fst (parse_path environ p)))
   \<and> (p = [] \<or> \<not> isspace (hd p) \<longrightarrow> tokens p = words_of p)
   \<and> (list_all has_eq (tokens p) \<longrightarrow> snd (parse_path environ p) = [None])
   \<and> argv (last (launcher_list (panel_add_launcher environ pn ic p))) = snd (parse_path environ p)
   \<and> envp (last (launcher_list (panel_add_launcher environ pn ic p))) = fst (parse_path environ p)
   \<and> snd (parse_path environ p) \<noteq> [] \<and> last (snd (parse_path environ p)) = None
   \<and> fst (parse_path environ p) \<noteq> [] \<and> last (fst (parse_path environ p)) = None"
proof -
  have "arguments p = []" if "p = [] \<or> \<not> isspace (hd p)" "list_all has_eq (words_of p)"
    using that tokens_words [of p] by (simp add: all_assignments_no_arguments)
  then show ?thesis
    using parse_path_envp_last [of environ p] tokens_words [of p]
    by (auto simp: panel_add_launcher_def parse_path_argv all_assignments_no_arguments
        panel_launcher_activate_def)
qed

theorem assignments_only_null_argv_witness:
  "\<not> isspace (hd assignments_line)
   \<and> list_all has_eq (words_of assignments_line)
   \<and> list_all has_eq (tokens assignments_line)
   \<and> argv (last (launcher_list (panel_add_launcher [''HOME=/root''] empty_panel ''x.png'' assignments_line))) = [None]
   \<and> panel_launcher_activate (last (launcher_list (panel_add_launcher [''HOME=/root''] empty_panel ''x.png'' assignments_line))) 0
        = Child_execve None [None] [Some ''HOME=/root'', Some ''A=1'', Some ''B=2'', None]"
proof -
  have h: "\<not> isspace (hd assignments_line)" "list_all has_eq (words_of assignments_line)"
      "list_all has_eq (tokens assignments_line)"
    by code_simp+
  have e: "fst (parse_path [''HOME=/root''] assignments_line) = [Some ''HOME=/root'', Some ''A=1'', Some ''B=2'', None]"
    by code_simp
  note t = assignments_only_null_argv [of assignments_line "[''HOME=/root'']" empty_panel "''x.png''"]
  from t h have r: "argv (last (launcher_list (panel_add_launcher [''HOME=/root''] empty_panel ''x.png'' assignments_line))) = [None]"
      "panel_launcher_activate (last (launcher_list (panel_add_launcher [''HOME=/root''] empty_panel ''x.png'' assignments_line))) 0
          = Child_execve None [None] (fst (parse_path [''HOME=/root''] assignments_line))"
    by blast+
  from h r show ?thesis unfolding e by blast
qed

end
